theory Spec2Isabelle
  imports Main "HOL-Library.Sublist"
begin

section \<open>Go values used by the image builder\<close>

text \<open>
  A Go \<^verbatim>\<open>error\<close> is observed through its message only, so an error is the string that
  \<^verbatim>\<open>Error()\<close> returns. \<^verbatim>\<open>errors.Wrap(err, msg)\<close> of pkg/errors gives the message
  \<^verbatim>\<open>msg + ": " + err.Error()\<close>. Go strings are byte sequences, \<^verbatim>\<open>len\<close> counts bytes and
  \<^verbatim>\<open>s[i:j]\<close> slices bytes: a \<^typ>\<open>string\<close> here is the list of those bytes.
\<close>

type_synonym error = string

definition Wrap :: "error \<Rightarrow> string \<Rightarrow> error" where
  "Wrap err msg = msg @ '': '' @ err"

text \<open>\<^verbatim>\<open>strings.HasPrefix(s, prefix)\<close>: \<^verbatim>\<open>len(s) >= len(prefix) && s[0:len(prefix)] == prefix\<close>.\<close>

definition HasPrefix :: "string \<Rightarrow> string \<Rightarrow> bool" where
  "HasPrefix s pre = (length pre \<le> length s \<and> take (length pre) s = pre)"

section \<open>Tagger: \<^verbatim>\<open>digestAsTag\<close> and \<^verbatim>\<open>digestMatchesRef\<close>\<close>

text \<open>
  \<^verbatim>\<open>digest.Digest\<close> (go-digest) is a string \<^verbatim>\<open>algorithm:encoded\<close>; \<^verbatim>\<open>Encoded()\<close> is the part
  after the separator. \<^verbatim>\<open>reference.NamedTagged\<close> is an image reference with a name and a tag.
  The constant \<^verbatim>\<open>ImageTagPrefix\<close> is declared in another file of the package, so the
  two functions take it as their first argument.
\<close>

datatype Digest = Digest (Algorithm: string) (Encoded: string)

datatype NamedTagged = NamedTagged (Name: string) (Tag: string)

definition digestAsTag :: "string \<Rightarrow> Digest \<Rightarrow> error + string" where
  "digestAsTag ImageTagPrefix d =
     (let str = Encoded d in
      if length str < 16 then Inl (''digest too short: '' @ str)
      else Inr (ImageTagPrefix @ take 16 str))"

definition digestMatchesRef :: "string \<Rightarrow> NamedTagged \<Rightarrow> Digest \<Rightarrow> bool" where
  "digestMatchesRef ImageTagPrefix ref digest =
     (let digestHash = Encoded digest; tag = Tag ref in
      if length tag \<le> length ImageTagPrefix then False
      else (let tagHash = drop (length ImageTagPrefix) tag in HasPrefix digestHash tagHash))"

section \<open>Manifest synthesis: \<^verbatim>\<open>addConditionalRuns\<close>, \<^verbatim>\<open>addRemainingRuns\<close>, \<^verbatim>\<open>DeprecatedFastBuildImage\<close>\<close>

text \<open>
  Modelled from the spec: the package \<^verbatim>\<open>model\<close> (the types \<^verbatim>\<open>Cmd\<close> and \<^verbatim>\<open>Run\<close> with the
  methods \<^verbatim>\<open>Cmd.Empty\<close> and \<^verbatim>\<open>Triggers.Empty\<close>) and the type \<^verbatim>\<open>PathMapping\<close> are not among
  the source files. The spec has \<^verbatim>\<open>Run\<close> as \<^verbatim>\<open>{Cmd, Triggers}\<close>, a command with the set of
  paths that trigger it, \<^verbatim>\<open>Triggers.Empty()\<close> for a run without a trigger, and
  \<^verbatim>\<open>PathMapping\<close> as \<^verbatim>\<open>{LocalPath, ContainerPath}\<close>. A command is its argument vector, and
  it is empty when no entrypoint is supplied.
\<close>

record Cmd =
  Argv :: "string list"

record Run =
  Cmd :: Cmd
  Triggers :: "string list"

record PathMapping =
  LocalPath :: string
  ContainerPath :: string

definition Triggers_Empty :: "string list \<Rightarrow> bool" where
  "Triggers_Empty ps = (length ps = 0)"

definition Cmd_Empty :: "Cmd \<Rightarrow> bool" where
  "Cmd_Empty c = (length (Argv c) = 0)"

text \<open>
  Modelled from the spec: the package \<^verbatim>\<open>dockerfile\<close> (the type \<^verbatim>\<open>Dockerfile\<close> with its methods
  \<^verbatim>\<open>Join\<close>, \<^verbatim>\<open>Run\<close>, \<^verbatim>\<open>AddAll\<close>, \<^verbatim>\<open>Entrypoint\<close> and \<^verbatim>\<open>WithLabel\<close>) is not among the
  source files. The spec describes the manifest as an ordered, append-only sequence of
  opaque build instructions with operations that append a text line, a run-instruction,
  the catch-all copy-instruction, an entrypoint and a label. The empty manifest is the
  value \<^verbatim>\<open>""\<close> that the source returns beside an error.
\<close>

datatype instruction =
  Line string
  | RunInstr Cmd
  | AddAllInstr
  | EntrypointInstr Cmd
  | LabelInstr string string

type_synonym Dockerfile = "instruction list"

definition df_Join :: "Dockerfile \<Rightarrow> string \<Rightarrow> Dockerfile" where
  "df_Join df s = df @ [Line s]"

definition df_Run :: "Dockerfile \<Rightarrow> Cmd \<Rightarrow> Dockerfile" where
  "df_Run df cmd = df @ [RunInstr cmd]"

definition df_AddAll :: "Dockerfile \<Rightarrow> Dockerfile" where
  "df_AddAll df = df @ [AddAllInstr]"

definition df_Entrypoint :: "Dockerfile \<Rightarrow> Cmd \<Rightarrow> Dockerfile" where
  "df_Entrypoint df cmd = df @ [EntrypointInstr cmd]"

definition df_WithLabel :: "Dockerfile \<Rightarrow> string \<Rightarrow> string \<Rightarrow> Dockerfile" where
  "df_WithLabel df k v = df @ [LabelInstr k v]"

text \<open>
  What the synthesizer calls and the source files do not define is a parameter:
  \<^verbatim>\<open>ignore.CreateRunMatcher\<close> and \<^verbatim>\<open>FilterMappings\<close> (each returns a value or an error),
  the text \<^verbatim>\<open>%s\<close> prints for a \<^verbatim>\<open>model.Cmd\<close>, and the label constants \<^verbatim>\<open>BuildMode\<close> and
  \<^verbatim>\<open>BuildModeScratch\<close>. The builder's \<^verbatim>\<open>extraLabels\<close> is a Go map; it is given as the list
  of its entries in the order the \<^verbatim>\<open>range\<close> loop visits them.
\<close>

record 'm synth_env =
  CreateRunMatcher :: "Run \<Rightarrow> error + 'm"
  FilterMappings :: "PathMapping list \<Rightarrow> 'm \<Rightarrow> error + PathMapping list"
  CmdString :: "Cmd \<Rightarrow> string"
  BuildMode :: string
  BuildModeScratch :: string

record dockerImageBuilder =
  extraLabels :: "(string \<times> string) list"

text \<open>\<^verbatim>\<open>fmt.Sprintf("COPY %s %s", p.ContainerPath, p.ContainerPath)\<close>\<close>

definition copyLine :: "PathMapping \<Rightarrow> string" where
  "copyLine p = ''COPY '' @ ContainerPath p @ '' '' @ ContainerPath p"

text \<open>
  The loop of \<^verbatim>\<open>addConditionalRuns\<close> over \<^verbatim>\<open>runs\<close>, with its two variables \<^verbatim>\<open>df\<close> and
  \<^verbatim>\<open>consumed\<close>. It ends at the \<^verbatim>\<open>break\<close>, at the end of the list, or at a \<^verbatim>\<open>return\<close> with an
  error, which then carries the empty manifest.
\<close>

fun addConditionalRuns_loop ::
  "'m synth_env \<Rightarrow> PathMapping list \<Rightarrow> Dockerfile \<Rightarrow> nat \<Rightarrow> Run list \<Rightarrow>
     Dockerfile \<times> nat \<times> error option" where
  "addConditionalRuns_loop env paths df consumed [] = (df, consumed, None)"
| "addConditionalRuns_loop env paths df consumed (run # rest) =
     (if Triggers_Empty (Triggers run) then (df, consumed, None)
      else
        (case CreateRunMatcher env run of
          Inl err \<Rightarrow> ([], consumed, Some err)
        | Inr matcher \<Rightarrow>
            (case FilterMappings env paths matcher of
              Inl err \<Rightarrow> ([], consumed, Some err)
            | Inr pathsToAdd \<Rightarrow>
                if length pathsToAdd = 0
                then ([], consumed, Some (''No inputs for run: '' @ CmdString env (Cmd run)))
                else
                  addConditionalRuns_loop env paths
                    (df_Run (foldl (\<lambda>df p. df_Join df (copyLine p)) df pathsToAdd) (Cmd run))
                    (consumed + 1) rest)))"

definition addConditionalRuns ::
  "'m synth_env \<Rightarrow> Dockerfile \<Rightarrow> Run list \<Rightarrow> PathMapping list \<Rightarrow>
     Dockerfile \<times> Run list \<times> error option" where
  "addConditionalRuns env df runs paths =
     (case addConditionalRuns_loop env paths df 0 runs of
        (df', consumed, Some err) \<Rightarrow> ([], [], Some err)
      | (df', consumed, None) \<Rightarrow> (df', drop consumed runs, None))"

definition addRemainingRuns :: "Dockerfile \<Rightarrow> Run list \<Rightarrow> Dockerfile" where
  "addRemainingRuns df remaining = foldl (\<lambda>df run. df_Run df (Cmd run)) df remaining"

definition applyLabels ::
  "'m synth_env \<Rightarrow> dockerImageBuilder \<Rightarrow> Dockerfile \<Rightarrow> string \<Rightarrow> Dockerfile" where
  "applyLabels env d df buildMode =
     foldl (\<lambda>df (k, v). df_WithLabel df k v) (df_WithLabel df (BuildMode env) buildMode)
       (extraLabels d)"

text \<open>
  \<^verbatim>\<open>DeprecatedFastBuildImage\<close> from \<^verbatim>\<open>paths := SyncsToPathMappings(syncs)\<close> to the manifest it
  hands to \<^verbatim>\<open>buildFromDf\<close>: the result is the error it returns, or that manifest.
\<close>

definition DeprecatedFastBuildImage ::
  "'m synth_env \<Rightarrow> dockerImageBuilder \<Rightarrow> Dockerfile \<Rightarrow> PathMapping list \<Rightarrow> Run list \<Rightarrow> Cmd \<Rightarrow>
     error + Dockerfile" where
  "DeprecatedFastBuildImage env d baseDockerfile paths runs entrypoint =
     (let hasEntrypoint = \<not> Cmd_Empty entrypoint;
          df = baseDockerfile
      in case addConditionalRuns env df runs paths of
           (df, runs, Some err) \<Rightarrow> Inl (Wrap err ''DeprecatedFastBuildImage'')
         | (df, runs, None) \<Rightarrow>
             (let df = df_AddAll df;
                  df = addRemainingRuns df runs;
                  df = (if hasEntrypoint then df_Entrypoint df entrypoint else df);
                  df = applyLabels env d df (BuildModeScratch env)
              in Inr df))"

section \<open>Regular expressions of the decoder\<close>

text \<open>
  The source compiles three patterns with Go's \<^verbatim>\<open>regexp\<close>. A pattern is kept as the
  sequence of its parts: a literal text, a greedy \<^verbatim>\<open>*\<close> or \<^verbatim>\<open>+\<close> over a character class,
  the parentheses of capture group 1, and the anchors \<^verbatim>\<open>^\<close> and \<^verbatim>\<open>$\<close> (no multi-line flag:
  begin and end of the text). Go returns the leftmost match, and among the matches at
  that position the one a backtracking search finds first; a greedy repetition is tried
  longest first. The classes are \<^verbatim>\<open>.\<close> (any character but a newline), \<^verbatim>\<open>[0-9a-f]\<close> and
  \<^verbatim>\<open>\s\<close> (tab, newline, form feed, carriage return, space).
\<close>

datatype cclass = AnyCharNotNL | LowerHex | WhiteSpace

fun inClass :: "cclass \<Rightarrow> char \<Rightarrow> bool" where
  "inClass AnyCharNotNL c = (c \<noteq> CHR 0x0A)"
| "inClass LowerHex c = (c \<in> set ''0123456789abcdef'')"
| "inClass WhiteSpace c = (c \<in> set [CHR 0x09, CHR 0x0A, CHR 0x0C, CHR 0x0D, CHR '' ''])"

datatype node =
  Literal string
  | Star cclass
  | Plus cclass
  | CapOpen
  | CapClose
  | BeginText
  | EndText

type_synonym regexp = "node list"

text \<open>\<open>tryLongest f lo n\<close>: the first of \<open>f n\<close>, \<open>f (n - 1)\<close>, ..., \<open>f lo\<close> that succeeds.\<close>

fun tryLongest :: "(nat \<Rightarrow> 'a option) \<Rightarrow> nat \<Rightarrow> nat \<Rightarrow> 'a option" where
  "tryLongest f lo 0 = (if lo = 0 then f 0 else None)"
| "tryLongest f lo (Suc n) =
     (if Suc n < lo then None
      else (case f (Suc n) of Some r \<Rightarrow> Some r | None \<Rightarrow> tryLongest f lo n))"

text \<open>
  \<open>matchNodes re pos s cap\<close> matches \<open>re\<close> at offset \<open>pos\<close> of the text, of which \<open>s\<close> is the
  part from \<open>pos\<close> on; \<open>cap\<close> holds the offsets of group 1. The result is the offset where
  the match ends, with the offsets of the group.
\<close>

fun matchNodes :: "regexp \<Rightarrow> nat \<Rightarrow> string \<Rightarrow> nat \<times> nat \<Rightarrow> (nat \<times> nat \<times> nat) option" where
  "matchNodes [] pos s cap = Some (pos, cap)"
| "matchNodes (Literal l # re) pos s cap =
     (if HasPrefix s l then matchNodes re (pos + length l) (drop (length l) s) cap else None)"
| "matchNodes (Star c # re) pos s cap =
     tryLongest (\<lambda>n. matchNodes re (pos + n) (drop n s) cap) 0 (length (takeWhile (inClass c) s))"
| "matchNodes (Plus c # re) pos s cap =
     tryLongest (\<lambda>n. matchNodes re (pos + n) (drop n s) cap) 1 (length (takeWhile (inClass c) s))"
| "matchNodes (CapOpen # re) pos s cap = matchNodes re pos s (pos, snd cap)"
| "matchNodes (CapClose # re) pos s cap = matchNodes re pos s (fst cap, pos)"
| "matchNodes (BeginText # re) pos s cap = (if pos = 0 then matchNodes re pos s cap else None)"
| "matchNodes (EndText # re) pos s cap = (if s = [] then matchNodes re pos s cap else None)"

text \<open>The leftmost match at or after \<open>pos\<close>: where it begins, where it ends, and group 1.\<close>

fun search :: "regexp \<Rightarrow> nat \<Rightarrow> string \<Rightarrow> (nat \<times> nat \<times> nat \<times> nat) option" where
  "search re pos [] =
     (case matchNodes re pos [] (0, 0) of Some (e, cap) \<Rightarrow> Some (pos, e, cap) | None \<Rightarrow> None)"
| "search re pos (c # cs) =
     (case matchNodes re pos (c # cs) (0, 0) of
        Some (e, cap) \<Rightarrow> Some (pos, e, cap)
      | None \<Rightarrow> search re (Suc pos) cs)"

text \<open>Go's \<^verbatim>\<open>s[i:j]\<close> for \<open>i \<le> j \<le> len(s)\<close>.\<close>

definition slice :: "string \<Rightarrow> nat \<Rightarrow> nat \<Rightarrow> string" where
  "slice s i j = take (j - i) (drop i s)"

text \<open>\<^verbatim>\<open>re.FindStringSubmatch(s)\<close>: \<^verbatim>\<open>nil\<close> without a match, else the match and group 1.\<close>

definition FindStringSubmatch :: "regexp \<Rightarrow> string \<Rightarrow> string list" where
  "FindStringSubmatch re s =
     (case search re 0 s of
        None \<Rightarrow> []
      | Some (b, e, cs, ce) \<Rightarrow> [slice s b e, slice s cs ce])"

text \<open>
  \<^verbatim>\<open>re.ReplaceAllString(src, "$1")\<close>: every match, from the left and without overlap, is
  replaced by its group 1. \<open>s\<close> is the text from offset \<open>pos\<close> on. The patterns of the
  source begin with a literal, so a match has at least one character; for a pattern
  that matches the empty text the replacement stops there. The two other tests of the
  guard (a match that begins before \<open>pos\<close> or ends behind the text) hold for no match.
\<close>

function replaceAll :: "regexp \<Rightarrow> nat \<Rightarrow> string \<Rightarrow> string" where
  "replaceAll re pos s =
     (case search re pos s of
        None \<Rightarrow> s
      | Some (b, e, cs, ce) \<Rightarrow>
          if e \<le> b \<or> b < pos \<or> length s < e - pos then s
          else take (b - pos) s @ take (ce - cs) (drop (cs - pos) s) @
               replaceAll re e (drop (e - pos) s))"
  by pat_completeness auto
termination
  by (relation "measure (\<lambda>(re, pos, s). length s)") auto

definition ReplaceAllString_group1 :: "regexp \<Rightarrow> string \<Rightarrow> string" where
  "ReplaceAllString_group1 re src = replaceAll re 0 src"

text \<open>\<^verbatim>\<open>strings.TrimPrefix(s, prefix)\<close>\<close>

definition TrimPrefix :: "string \<Rightarrow> string \<Rightarrow> string" where
  "TrimPrefix s pre = (if HasPrefix s pre then drop (length pre) s else s)"

text \<open>\<^verbatim>\<open>^Successfully built ([0-9a-f]+)\s*$\<close>\<close>

definition oldDigestRegexp :: regexp where
  "oldDigestRegexp =
     [BeginText, Literal ''Successfully built '', CapOpen, Plus LowerHex, CapClose,
      Star WhiteSpace, EndText]"

text \<open>
  \<^verbatim>\<open>(executor failed running.*): runc did not terminate sucessfully\<close> and
  \<^verbatim>\<open>failed to compute cache key: (.* not found): not found\<close>
\<close>

definition dockerBuildCleanupRexes :: "regexp list" where
  "dockerBuildCleanupRexes =
     [[CapOpen, Literal ''executor failed running'', Star AnyCharNotNL, CapClose,
       Literal '': runc did not terminate sucessfully''],
      [Literal ''failed to compute cache key: '', CapOpen, Star AnyCharNotNL,
       Literal '' not found'', CapClose, Literal '': not found'']]"

definition cleanupDockerBuildError :: "string \<Rightarrow> string" where
  "cleanupDockerBuildError err =
     (let ret = TrimPrefix err ''failed to solve with frontend dockerfile.v0: failed to build LLB: ''
      in foldl (\<lambda>ret re. ReplaceAllString_group1 re ret) ret dockerBuildCleanupRexes)"

section \<open>Build output decoder: \<^verbatim>\<open>readDockerOutput\<close>\<close>

text \<open>
  \<^verbatim>\<open>jsonmessage.JSONMessage\<close> with the fields the decoder reads; a \<^verbatim>\<open>nil\<close> pointer is
  \<open>None\<close>. \<^verbatim>\<open>json.RawMessage\<close> is the undecoded text of a JSON value. \<^verbatim>\<open>dockerOutput\<close> is
  the result of decoding.
\<close>

type_synonym RawMessage = string

record JSONProgress =
  Current :: int
  Total :: int

record JSONError =
  Code :: int
  Message :: string

record JSONMessage =
  Stream :: string
  Status :: string
  Progress :: "JSONProgress option"
  ID :: string
  ErrorMessage :: string
  Error :: "JSONError option"
  Aux :: "RawMessage option"

record dockerOutput =
  aux :: "RawMessage option"
  shortDigest :: string

text \<open>The value \<^verbatim>\<open>dockerOutput{}\<close>.\<close>

definition dockerOutput_zero :: dockerOutput where
  "dockerOutput_zero = \<lparr>aux = None, shortDigest = []\<rparr>"

text \<open>
  Time: an instant is the clock's reading in nanoseconds, a \<^verbatim>\<open>time.Duration\<close> a 64-bit
  signed count of nanoseconds. \<^verbatim>\<open>time.Since(t)\<close> is the difference of two readings,
  saturated to the range of a duration; \<^verbatim>\<open>2 * waitDur\<close> wraps around in 64 bits.
\<close>

type_synonym Time = int
type_synonym Duration = int

definition Second :: Duration where
  "Second = 1000000000"

definition wrap64 :: "int \<Rightarrow> int" where
  "wrap64 x = (x + 2 ^ 63) mod 2 ^ 64 - 2 ^ 63"

definition Since :: "Time \<Rightarrow> Time \<Rightarrow> Duration" where
  "Since now t = max (- (2 ^ 63)) (min (2 ^ 63 - 1) (now - t))"

text \<open>
  What the decoder reads is the sequence of values that \<^verbatim>\<open>decoder.Decode\<close> yields while
  \<^verbatim>\<open>decoder.More()\<close> holds: a message, or a decoding error. Each comes with the reading of
  the clock while it is handled (one reading for the two uses of the clock in one turn
  of the loop). What the decoder writes to the logger is the list of its lines. A call
  that dereferences \<^verbatim>\<open>nil\<close> panics and returns nothing.
\<close>

datatype decoded = Malformed error | Decoded JSONMessage

datatype log_line =
  LogWrite string
  | LogProgress string string JSONProgress

datatype 'a outcome = Returns 'a | Panics

text \<open>
  The parameters of the decoder: the two decoding steps of a graph-trace payload
  (\<^verbatim>\<open>json.Unmarshal\<close> into bytes, then \<^verbatim>\<open>StatusResponse.Unmarshal\<close>), the printer of the
  graph trace with its state (\<^verbatim>\<open>newBuildkitPrinter\<close>, and \<^verbatim>\<open>parseAndPrint\<close> applied to
  \<^verbatim>\<open>toVertexes(resp)\<close>), and the value of \<^verbatim>\<open>ctx.Err()\<close> after the loop.
\<close>

record ('r, 'b) decoder_env =
  jsonUnmarshalBytes :: "RawMessage \<Rightarrow> error + string"
  statusUnmarshal :: "string \<Rightarrow> error + 'r"
  parseAndPrint :: "'b \<Rightarrow> 'r \<Rightarrow> error option \<times> 'b"
  newBuildkitPrinter :: 'b
  ctxErr :: "error option"

definition messageIsFromBuildkit :: "JSONMessage \<Rightarrow> bool" where
  "messageIsFromBuildkit msg = (ID msg = ''moby.buildkit.trace'')"

definition toBuildkitStatus ::
  "('r, 'b) decoder_env \<Rightarrow> RawMessage option \<Rightarrow> 'b \<Rightarrow> (error option \<times> 'b) outcome" where
  "toBuildkitStatus env auxp bp =
     (case auxp of
        None \<Rightarrow> Panics
      | Some raw \<Rightarrow>
          (case jsonUnmarshalBytes env raw of
             Inl err \<Rightarrow> Returns (Some err, bp)
           | Inr dt \<Rightarrow>
               (case statusUnmarshal env dt of
                  Inl err \<Rightarrow> Returns (Some err, bp)
                | Inr resp \<Rightarrow> Returns (parseAndPrint env bp resp))))"

text \<open>The variables of the loop: the result, the two maps of the throttle, the printer, the log.\<close>

record 'b decoder_state =
  result :: dockerOutput
  progressLastPrinted :: "string \<rightharpoonup> Time"
  progressPrintWait :: "string \<rightharpoonup> Duration"
  bkPrinter :: 'b
  logged :: "log_line list"

text \<open>
  The block \<^verbatim>\<open>if len(message.Stream) > 0\<close>: the legacy digest and the log line (the
  tracing spans have no effect on the result).
\<close>

definition streamBlock :: "'b decoder_state \<Rightarrow> JSONMessage \<Rightarrow> 'b decoder_state" where
  "streamBlock st message =
     (if length (Stream message) > 0 then
        (let msg = Stream message;
             builtDigestMatch = FindStringSubmatch oldDigestRegexp msg;
             st = (if length builtDigestMatch \<ge> 2
                   then st\<lparr>result := (result st)\<lparr>shortDigest := builtDigestMatch ! 1\<rparr>\<rparr>
                   else st)
         in st\<lparr>logged := logged st @ [LogWrite msg]\<rparr>)
      else st)"

text \<open>
  The block \<^verbatim>\<open>if id != "" && message.Progress != nil\<close>. A key that a Go map lacks reads as
  the zero value: \<^verbatim>\<open>hasBeenPrinted\<close> is false and \<^verbatim>\<open>waitDur\<close> is 0. \<^verbatim>\<open>||\<close> evaluates its
  operands from the left, so the time since the last print counts only under
  \<^verbatim>\<open>hasBeenPrinted\<close>.
\<close>

definition shouldPrint :: "'b decoder_state \<Rightarrow> Time \<Rightarrow> string \<Rightarrow> JSONProgress \<Rightarrow> bool" where
  "shouldPrint st now ident progress =
     (let waitDur = (case progressPrintWait st ident of None \<Rightarrow> 0 | Some w \<Rightarrow> w)
      in case progressLastPrinted st ident of
           None \<Rightarrow> True
         | Some lastPrinted \<Rightarrow>
             Current progress = Total progress \<or> Since now lastPrinted > waitDur)"

definition shouldSkip :: "JSONMessage \<Rightarrow> JSONProgress \<Rightarrow> bool" where
  "shouldSkip message progress =
     (Current progress = 0 \<and> (Status message = ''Waiting'' \<or> Status message = ''Preparing''))"

definition progressBlock :: "Time \<Rightarrow> 'b decoder_state \<Rightarrow> JSONMessage \<Rightarrow> 'b decoder_state" where
  "progressBlock now st message =
     (let ident = ID message in
      case Progress message of
        None \<Rightarrow> st
      | Some progress \<Rightarrow>
          if ident = [] then st
          else
            (let waitDur = (case progressPrintWait st ident of None \<Rightarrow> 0 | Some w \<Rightarrow> w)
             in if shouldPrint st now ident progress \<and> \<not> shouldSkip message progress
                then st\<lparr>logged := logged st @ [LogProgress ident (Status message) progress],
                        progressLastPrinted := (progressLastPrinted st)(ident \<mapsto> now),
                        progressPrintWait := (progressPrintWait st)(ident \<mapsto>
                          (if waitDur = 0 then 5 * Second else wrap64 (2 * waitDur)))\<rparr>
                else st))"

text \<open>The block \<^verbatim>\<open>if message.Aux != nil && !messageIsFromBuildkit(message)\<close>.\<close>

definition auxBlock :: "'b decoder_state \<Rightarrow> JSONMessage \<Rightarrow> 'b decoder_state" where
  "auxBlock st message =
     (if Aux message \<noteq> None \<and> \<not> messageIsFromBuildkit message
      then st\<lparr>result := (result st)\<lparr>aux := Aux message\<rparr>\<rparr>
      else st)"

text \<open>
  The loop \<^verbatim>\<open>for decoder.More()\<close> and what follows it. The function returns the output,
  the error, and the lines logged until then.
\<close>

fun readLoop ::
  "('r, 'b) decoder_env \<Rightarrow> 'b decoder_state \<Rightarrow> (Time \<times> decoded) list \<Rightarrow>
     (dockerOutput \<times> error option \<times> log_line list) outcome" where
  "readLoop env st [] =
     (case ctxErr env of
        Some err \<Rightarrow> Returns (dockerOutput_zero, Some err, logged st)
      | None \<Rightarrow> Returns (result st, None, logged st))"
| "readLoop env st ((now, Malformed err) # rest) =
     Returns (dockerOutput_zero, Some (Wrap err ''decoding docker output''), logged st)"
| "readLoop env st ((now, Decoded message) # rest) =
     (let st = streamBlock st message in
      if ErrorMessage message \<noteq> [] then
        Returns (dockerOutput_zero, Some (cleanupDockerBuildError (ErrorMessage message)), logged st)
      else
        (case Error message of
           Some e \<Rightarrow>
             Returns (dockerOutput_zero, Some (cleanupDockerBuildError (Message e)), logged st)
         | None \<Rightarrow>
             (let st = progressBlock now st message in
              if messageIsFromBuildkit message then
                (case toBuildkitStatus env (Aux message) (bkPrinter st) of
                   Panics \<Rightarrow> Panics
                 | Returns (Some err, bp) \<Rightarrow> Returns (dockerOutput_zero, Some err, logged st)
                 | Returns (None, bp) \<Rightarrow> readLoop env (auxBlock (st\<lparr>bkPrinter := bp\<rparr>) message) rest)
              else readLoop env (auxBlock st message) rest)))"

definition readDockerOutput ::
  "('r, 'b) decoder_env \<Rightarrow> (Time \<times> decoded) list \<Rightarrow>
     (dockerOutput \<times> error option \<times> log_line list) outcome" where
  "readDockerOutput env reader =
     readLoop env
       \<lparr>result = dockerOutput_zero, progressLastPrinted = Map.empty,
        progressPrintWait = Map.empty, bkPrinter = newBuildkitPrinter env, logged = []\<rparr>
       reader"

section \<open>Digest recovery: \<^verbatim>\<open>getDigestFromDockerOutput\<close>\<close>

text \<open>
  \<^verbatim>\<open>digest.Digest(id)\<close> converts a string without a check, so the digest recovered is that
  string. \<^verbatim>\<open>json.Unmarshal\<close> into a \<^verbatim>\<open>map[string]string\<close> and the daemon's
  \<^verbatim>\<open>ImageInspectWithRaw\<close> (its result reduced to \<^verbatim>\<open>data.ID\<close>) are parameters. A function
  returns the pair of Go: the value and the error.
\<close>

definition dockerNotResponding :: error where
  "dockerNotResponding =
     ''Docker is not responding. Maybe Docker is out of disk space? Try running `docker system prune`''"

definition getDigestFromAux ::
  "(RawMessage \<Rightarrow> error + (string \<rightharpoonup> string)) \<Rightarrow> RawMessage \<Rightarrow> string \<times> error option" where
  "getDigestFromAux jsonUnmarshalMap auxv =
     (case jsonUnmarshalMap auxv of
        Inl err \<Rightarrow> ([], Some (Wrap err ''getDigestFromAux''))
      | Inr digestMap \<Rightarrow>
          (case digestMap ''ID'' of
             None \<Rightarrow> ([], Some ''getDigestFromAux: ID not found'')
           | Some ident \<Rightarrow> (ident, None)))"

definition getDigestFromDockerOutput ::
  "(RawMessage \<Rightarrow> error + (string \<rightharpoonup> string)) \<Rightarrow> (string \<Rightarrow> error + string) \<Rightarrow> dockerOutput \<Rightarrow>
     string \<times> error option" where
  "getDigestFromDockerOutput jsonUnmarshalMap ImageInspectWithRaw output =
     (case aux output of
        Some a \<Rightarrow> getDigestFromAux jsonUnmarshalMap a
      | None \<Rightarrow>
          if shortDigest output \<noteq> [] then
            (case ImageInspectWithRaw (shortDigest output) of
               Inl err \<Rightarrow> ([], Some err)
             | Inr ident \<Rightarrow> (ident, None))
          else ([], Some dockerNotResponding))"

definition getDigestFromBuildOutput ::
  "('r, 'b) decoder_env \<Rightarrow> (RawMessage \<Rightarrow> error + (string \<rightharpoonup> string)) \<Rightarrow>
     (string \<Rightarrow> error + string) \<Rightarrow> (Time \<times> decoded) list \<Rightarrow> (string \<times> error option) outcome" where
  "getDigestFromBuildOutput env jsonUnmarshalMap ImageInspectWithRaw reader =
     (case readDockerOutput env reader of
        Panics \<Rightarrow> Panics
      | Returns (res, Some err, lg) \<Rightarrow> Returns ([], Some (Wrap err ''ImageBuild''))
      | Returns (res, None, lg) \<Rightarrow>
          (case getDigestFromDockerOutput jsonUnmarshalMap ImageInspectWithRaw res of
             (dig, Some err) \<Rightarrow> Returns ([], Some (Wrap err ''getDigestFromBuildOutput''))
           | (dig, None) \<Rightarrow> Returns (dig, None)))"


section \<open>Predicates and concrete inputs of the statements\<close>

text \<open>
  A record the loop handles and passes: it decodes, it carries no error, and when it is a
  graph-trace record its payload is present, decodes and prints without an error
  (whatever the state of the printer).
\<close>

definition validRecord :: "('r, 'b) decoder_env \<Rightarrow> decoded \<Rightarrow> bool" where
  "validRecord env x =
     (case x of
        Malformed err \<Rightarrow> False
      | Decoded m \<Rightarrow>
          ErrorMessage m = [] \<and> Error m = None \<and>
          (messageIsFromBuildkit m \<longrightarrow>
             (\<forall>bp. \<exists>bp'. toBuildkitStatus env (Aux m) bp = Returns (None, bp'))))"

text \<open>The value \<^verbatim>\<open>jsonmessage.JSONMessage{}\<close>, from which the examples build their records.\<close>

definition JSONMessage_zero :: JSONMessage where
  "JSONMessage_zero =
     \<lparr>Stream = [], Status = [], Progress = None, ID = [], ErrorMessage = [], Error = None,
      Aux = None\<rparr>"

text \<open>
  A decoder environment for the examples: a payload decodes unless it is empty, the
  printer has no state and never fails, the context is not cancelled.
\<close>

definition exampleEnv :: "(unit, unit) decoder_env" where
  "exampleEnv =
     \<lparr>jsonUnmarshalBytes = (\<lambda>raw. if raw = [] then Inl ''unexpected end of JSON input'' else Inr raw),
      statusUnmarshal = (\<lambda>dt. Inr ()),
      parseAndPrint = (\<lambda>bp resp. (None, bp)),
      newBuildkitPrinter = (),
      ctxErr = None\<rparr>"


text \<open>
  For the examples of digest recovery: an aux payload that decodes to a map with the key
  \<^verbatim>\<open>ID\<close>, and a daemon that knows one image by its short digest.
\<close>

definition exampleUnmarshalMap :: "RawMessage \<Rightarrow> error + (string \<rightharpoonup> string)" where
  "exampleUnmarshalMap raw =
     (if raw = ''{ID:sha256:11}'' then Inr [''ID'' \<mapsto> ''sha256:11'']
      else Inl ''invalid character'')"

definition exampleInspect :: "string \<Rightarrow> error + string" where
  "exampleInspect ref =
     (if ref = ''abcdef0123456789'' then Inr ''sha256:abcdef0123456789aaaa''
      else Inl ''No such image'')"


text \<open>
  A run is conditional when its trigger set is not empty. \<open>resolvesTo env paths r ps\<close>: the
  matcher of the run \<open>r\<close> is created and filters the path mappings to \<open>ps\<close>. \<open>runBlock\<close>
  is what the synthesizer appends for a conditional run resolved to \<open>ps\<close>.
\<close>

definition conditionalRun :: "Run \<Rightarrow> bool" where
  "conditionalRun r = (\<not> Triggers_Empty (Triggers r))"

definition resolvesTo :: "'m synth_env \<Rightarrow> PathMapping list \<Rightarrow> Run \<Rightarrow> PathMapping list \<Rightarrow> bool" where
  "resolvesTo env paths r ps =
     (case CreateRunMatcher env r of
        Inl err \<Rightarrow> False
      | Inr matcher \<Rightarrow> FilterMappings env paths matcher = Inr ps)"

definition runBlock :: "PathMapping list \<Rightarrow> Run \<Rightarrow> Dockerfile" where
  "runBlock ps r = map (\<lambda>p. Line (copyLine p)) ps @ [RunInstr (Cmd r)]"

text \<open>What follows the conditional runs: the catch-all copy, the other runs, the entrypoint, the labels.\<close>

definition manifestTail ::
  "'m synth_env \<Rightarrow> dockerImageBuilder \<Rightarrow> Run list \<Rightarrow> Cmd \<Rightarrow> Dockerfile" where
  "manifestTail env d rest entrypoint =
     [AddAllInstr] @ map (\<lambda>r. RunInstr (Cmd r)) rest @
     (if Cmd_Empty entrypoint then [] else [EntrypointInstr entrypoint]) @
     LabelInstr (BuildMode env) (BuildModeScratch env) #
     map (\<lambda>(k, v). LabelInstr k v) (extraLabels d)"

text \<open>
  A synthesizer environment for the examples: the matcher of a run is its list of
  triggers, a path mapping matches when its local path is one of them, a command prints
  as its arguments separated by spaces.
\<close>

definition exampleSynthEnv :: "(string list) synth_env" where
  "exampleSynthEnv =
     \<lparr>CreateRunMatcher = (\<lambda>run. Inr (Triggers run)),
      FilterMappings = (\<lambda>paths matcher. Inr (filter (\<lambda>p. LocalPath p \<in> set matcher) paths)),
      CmdString = (\<lambda>c. foldr (\<lambda>a s. if s = [] then a else a @ '' '' @ s) (Argv c) []),
      BuildMode = ''tilt.buildMode'',
      BuildModeScratch = ''scratch''\<rparr>"

definition exampleBuilder :: dockerImageBuilder where
  "exampleBuilder = \<lparr>extraLabels = [(''tilt.test'', ''1'')]\<rparr>"

definition examplePaths :: "PathMapping list" where
  "examplePaths =
     [\<lparr>LocalPath = ''package.json'', ContainerPath = ''/package.json''\<rparr>,
      \<lparr>LocalPath = ''src/main.js'', ContainerPath = ''/src/main.js''\<rparr>]"

definition npmInstall :: Run where
  "npmInstall = \<lparr>Cmd = \<lparr>Argv = [''npm'', ''install'']\<rparr>, Triggers = [''package.json'']\<rparr>"

definition npmBuild :: Run where
  "npmBuild = \<lparr>Cmd = \<lparr>Argv = [''npm'', ''build'']\<rparr>, Triggers = []\<rparr>"

definition pipInstall :: Run where
  "pipInstall = \<lparr>Cmd = \<lparr>Argv = [''pip'', ''install'']\<rparr>, Triggers = [''requirements.txt'']\<rparr>"

definition goGenerate :: Run where
  "goGenerate = \<lparr>Cmd = \<lparr>Argv = [''go'', ''generate'']\<rparr>, Triggers = [''go.mod'']\<rparr>"


text \<open>
  A record that carries progress only: identifier, status and the two counters.
  \<open>suppressed\<close> is the test of the source for the records it never prints. \<open>throttleInv\<close>
  ties the maps of the throttle to the log: an identifier has a time of last print
  exactly when a progress line of it was logged, and then it has a wait window.
\<close>

definition progressMessage :: "string \<Rightarrow> string \<Rightarrow> int \<Rightarrow> int \<Rightarrow> JSONMessage" where
  "progressMessage ident status cur tot =
     JSONMessage_zero\<lparr>ID := ident, Status := status,
       Progress := Some \<lparr>Current = cur, Total = tot\<rparr>\<rparr>"

definition suppressed :: "string \<Rightarrow> int \<Rightarrow> bool" where
  "suppressed status cur = (cur = 0 \<and> (status = ''Waiting'' \<or> status = ''Preparing''))"

definition throttleInv :: "'b decoder_state \<Rightarrow> bool" where
  "throttleInv st =
     (\<forall>ident. (progressLastPrinted st ident \<noteq> None) =
               (\<exists>status p. LogProgress ident status p \<in> set (logged st)) \<and>
              (progressPrintWait st ident \<noteq> None) = (progressLastPrinted st ident \<noteq> None))"


section \<open>Properties of the tagger\<close>

lemma HasPrefix_iff_prefix: "HasPrefix s pre \<longleftrightarrow> prefix pre s"
proof
  assume "HasPrefix s pre"
  then have "take (length pre) s = pre" by (simp add: HasPrefix_def)
  then show "prefix pre s" by (metis take_is_prefix)
next
  assume "prefix pre s"
  then obtain zs where "s = pre @ zs" by (auto simp: prefix_def)
  then show "HasPrefix s pre" by (simp add: HasPrefix_def)
qed

lemma take_eq_short:
  assumes "take n xs = take n ys" and "length xs < n"
  shows "xs = ys"
proof -
  have "length (take n ys) = length xs" using assms by (metis length_take min.absorb1 less_imp_le)
  then have "length ys < n" using assms(2) by (simp add: min_def split: if_splits)
  then show ?thesis using assms by simp
qed

text \<open>
  C1. \<^verbatim>\<open>digestAsTag\<close> fails exactly when the encoded form of the digest has fewer than 16
  characters; otherwise the tag is the prefix followed by the first 16 characters of the
  encoded form; two digests whose encoded forms agree on their first 16 characters get the
  same result.
\<close>

theorem digestAsTag_spec:
  "((\<exists>e. digestAsTag p d = Inl e) \<longleftrightarrow> length (Encoded d) < 16) \<and>
   (\<not> length (Encoded d) < 16 \<longrightarrow> digestAsTag p d = Inr (p @ take 16 (Encoded d))) \<and>
   (take 16 (Encoded d) = take 16 (Encoded d') \<longrightarrow> digestAsTag p d = digestAsTag p d')"
proof (intro conjI impI)
  show "(\<exists>e. digestAsTag p d = Inl e) \<longleftrightarrow> length (Encoded d) < 16"
    by (simp add: digestAsTag_def Let_def)
next
  assume "\<not> length (Encoded d) < 16"
  then show "digestAsTag p d = Inr (p @ take 16 (Encoded d))"
    by (simp add: digestAsTag_def Let_def)
next
  assume eq: "take 16 (Encoded d) = take 16 (Encoded d')"
  show "digestAsTag p d = digestAsTag p d'"
  proof (cases "length (Encoded d) < 16")
    case True
    then have "Encoded d = Encoded d'" using eq by (rule take_eq_short [rotated])
    then show ?thesis by (simp add: digestAsTag_def)
  next
    case False
    have "\<not> length (Encoded d') < 16"
    proof
      assume "length (Encoded d') < 16"
      then have "Encoded d' = Encoded d" using eq [symmetric] by (rule take_eq_short [rotated])
      with False \<open>length (Encoded d') < 16\<close> show False by simp
    qed
    with False eq show ?thesis by (simp add: digestAsTag_def Let_def)
  qed
qed

theorem digestAsTag_spec_witness:
  "digestAsTag ''tilt-'' (Digest ''sha256'' ''0123456789abcdef0000'') = Inr ''tilt-0123456789abcdef'' \<and>
   digestAsTag ''tilt-'' (Digest ''sha256'' ''0123456789abcdef0000'') =
     digestAsTag ''tilt-'' (Digest ''sha256'' ''0123456789abcdefffff'') \<and>
   (\<exists>e. digestAsTag ''tilt-'' (Digest ''sha256'' ''0123456789abcde'') = Inl e)"
proof -
  let ?d = "Digest ''sha256'' ''0123456789abcdef0000''"
  let ?d' = "Digest ''sha256'' ''0123456789abcdefffff''"
  let ?s = "Digest ''sha256'' ''0123456789abcde''"
  have long: "\<not> length (Encoded ?d) < 16" by simp
  have same: "take 16 (Encoded ?d) = take 16 (Encoded ?d')" by simp
  have short: "length (Encoded ?s) < 16" by simp
  from digestAsTag_spec [of "''tilt-''" ?d ?d'] long same
  have "digestAsTag ''tilt-'' ?d = Inr (''tilt-'' @ take 16 (Encoded ?d))"
    and "digestAsTag ''tilt-'' ?d = digestAsTag ''tilt-'' ?d'"
    by blast+
  moreover from digestAsTag_spec [of "''tilt-''" ?s ?s] short
  have "\<exists>e. digestAsTag ''tilt-'' ?s = Inl e" by blast
  ultimately show ?thesis by simp
qed

lemma digestMatchesRef_iff:
  "digestMatchesRef p ref d \<longleftrightarrow>
     length p < length (Tag ref) \<and> prefix (drop (length p) (Tag ref)) (Encoded d)"
  by (simp add: digestMatchesRef_def Let_def HasPrefix_iff_prefix not_le)

text \<open>
  C2. \<^verbatim>\<open>digestMatchesRef\<close> holds if and only if the tag without its first \<open>length p\<close>
  characters is a non-empty initial segment of the encoded digest; equivalently, if and
  only if the tag is strictly longer than the prefix and its characters after the length
  of the prefix are an initial segment of the encoded digest.
\<close>

theorem digestMatchesRef_spec:
  "(digestMatchesRef p ref d \<longleftrightarrow>
      drop (length p) (Tag ref) \<noteq> [] \<and> prefix (drop (length p) (Tag ref)) (Encoded d)) \<and>
   (digestMatchesRef p ref d \<longleftrightarrow>
      length p < length (Tag ref) \<and> prefix (drop (length p) (Tag ref)) (Encoded d))"
  by (simp add: digestMatchesRef_iff not_le)

lemma digestAsTag_eq_tag_iff:
  "digestAsTag p d = Inr t \<longleftrightarrow>
     (length p < length t \<and> prefix (drop (length p) t) (Encoded d)) \<and>
     take (length p) t = p \<and> length t = length p + 16"
proof
  assume "digestAsTag p d = Inr t"
  then have len: "16 \<le> length (Encoded d)" and t: "t = p @ take 16 (Encoded d)"
    by (auto simp: digestAsTag_def Let_def split: if_splits)
  from t len show "(length p < length t \<and> prefix (drop (length p) t) (Encoded d)) \<and>
     take (length p) t = p \<and> length t = length p + 16"
    by (simp add: take_is_prefix)
next
  assume a: "(length p < length t \<and> prefix (drop (length p) t) (Encoded d)) \<and>
     take (length p) t = p \<and> length t = length p + 16"
  then obtain zs where zs: "Encoded d = drop (length p) t @ zs"
    by (auto simp: prefix_def)
  from a have l16: "length (drop (length p) t) = 16" by simp
  from zs l16 have tk: "take 16 (Encoded d) = drop (length p) t" by simp
  from zs l16 have "16 \<le> length (Encoded d)" by (metis le_add1 length_append)
  moreover have "t = p @ drop (length p) t"
    using a by (metis append_take_drop_id)
  ultimately show "digestAsTag p d = Inr t"
    using tk by (simp add: digestAsTag_def Let_def)
qed

text \<open>
  C3, as the code has it. If \<^verbatim>\<open>digestAsTag\<close> succeeds with the tag of the reference, then
  \<^verbatim>\<open>digestMatchesRef\<close> holds. The converse needs more than \<^verbatim>\<open>digestMatchesRef\<close>: the tag
  also has to begin with the prefix and to have exactly 16 characters after it.
\<close>

theorem digestMatchesRef_vs_digestAsTag:
  "(digestAsTag p d = Inr (Tag ref) \<longrightarrow> digestMatchesRef p ref d) \<and>
   (digestAsTag p d = Inr (Tag ref) \<longleftrightarrow>
      digestMatchesRef p ref d \<and> take (length p) (Tag ref) = p \<and>
      length (Tag ref) = length p + 16)"
  by (simp add: digestAsTag_eq_tag_iff digestMatchesRef_iff)

theorem digestMatchesRef_vs_digestAsTag_witness:
  "digestAsTag ''tilt-'' (Digest ''sha256'' ''0123456789abcdef0000'') =
     Inr (Tag (NamedTagged ''img'' ''tilt-0123456789abcdef'')) \<and>
   digestMatchesRef ''tilt-'' (NamedTagged ''img'' ''tilt-0123456789abcdef'')
     (Digest ''sha256'' ''0123456789abcdef0000'')"
proof -
  let ?d = "Digest ''sha256'' ''0123456789abcdef0000''"
  let ?r = "NamedTagged ''img'' ''tilt-0123456789abcdef''"
  have h: "digestAsTag ''tilt-'' ?d = Inr (Tag ?r)"
    by (simp add: digestAsTag_def)
  with digestMatchesRef_vs_digestAsTag [of "''tilt-''" ?d ?r]
  have "digestMatchesRef ''tilt-'' ?r ?d" by blast
  with h show ?thesis by blast
qed

text \<open>
  The claim C3 as stated fails: the tag \<^verbatim>\<open>tilt-0123\<close> is accepted for a digest that begins
  with \<^verbatim>\<open>0123\<close>, and it is not the tag of that digest.
\<close>

theorem digestMatchesRef_not_iff_digestAsTag:
  "\<not> (digestMatchesRef ''tilt-'' (NamedTagged ''img'' ''tilt-0123'')
         (Digest ''sha256'' ''0123456789abcdef0000'') \<longleftrightarrow>
       digestAsTag ''tilt-'' (Digest ''sha256'' ''0123456789abcdef0000'') =
         Inr (Tag (NamedTagged ''img'' ''tilt-0123'')))"
  by (simp add: digestMatchesRef_def digestAsTag_def HasPrefix_def)

text \<open>
  C9. \<^verbatim>\<open>digestMatchesRef\<close> does not look at the first \<open>length p\<close> characters of the tag:
  two references whose tags have the same length and the same characters after that
  position get the same answer, and a tag longer than the prefix whose rest is an
  initial segment of the encoded digest is accepted, whatever it begins with.
\<close>

theorem digestMatchesRef_ignores_prefix:
  "(length (Tag ref) = length (Tag ref') \<and>
    drop (length p) (Tag ref) = drop (length p) (Tag ref') \<longrightarrow>
      digestMatchesRef p ref d = digestMatchesRef p ref' d) \<and>
   (length p < length (Tag ref) \<and> prefix (drop (length p) (Tag ref)) (Encoded d) \<longrightarrow>
      digestMatchesRef p ref d)"
  by (simp add: digestMatchesRef_iff)

theorem digestMatchesRef_ignores_prefix_witness:
  "\<not> prefix ''tilt-'' (Tag (NamedTagged ''img'' ''XXXXX0123'')) \<and>
   digestMatchesRef ''tilt-'' (NamedTagged ''img'' ''XXXXX0123'')
     (Digest ''sha256'' ''0123456789abcdef0000'') \<and>
   digestMatchesRef ''tilt-'' (NamedTagged ''img'' ''XXXXX0123'')
     (Digest ''sha256'' ''0123456789abcdef0000'') =
   digestMatchesRef ''tilt-'' (NamedTagged ''other'' ''tilt-0123'')
     (Digest ''sha256'' ''0123456789abcdef0000'')"
proof -
  let ?d = "Digest ''sha256'' ''0123456789abcdef0000''"
  let ?r = "NamedTagged ''img'' ''XXXXX0123''"
  let ?r' = "NamedTagged ''other'' ''tilt-0123''"
  have h1: "length (Tag ?r) = length (Tag ?r') \<and>
    drop (length ''tilt-'') (Tag ?r) = drop (length ''tilt-'') (Tag ?r')" by simp
  have h2: "length ''tilt-'' < length (Tag ?r) \<and>
    prefix (drop (length ''tilt-'') (Tag ?r)) (Encoded ?d)" by simp
  from digestMatchesRef_ignores_prefix [of ?r ?r' "''tilt-''" ?d] h1 h2
  have "digestMatchesRef ''tilt-'' ?r ?d = digestMatchesRef ''tilt-'' ?r' ?d"
    and "digestMatchesRef ''tilt-'' ?r ?d"
    by blast+
  moreover have "\<not> prefix ''tilt-'' (Tag ?r)" by simp
  ultimately show ?thesis by blast
qed

section \<open>Properties of the decoder\<close>

lemma readLoop_error_zero:
  "readLoop env st reader = Returns (out, Some err, lg) \<Longrightarrow> out = dockerOutput_zero"
proof (induction env st reader rule: readLoop.induct)
  case (1 env st)
  then show ?case by (simp split: option.splits)
next
  case (2 env st now err rest)
  then show ?case by simp
next
  case (3 env st now message rest)
  then show ?case
    by (simp add: Let_def split: if_splits option.splits outcome.splits prod.splits)
qed

lemma readLoop_valid_prefix:
  "\<forall>x\<in>set pre. validRecord env (snd x) \<Longrightarrow>
     \<exists>st'. readLoop env st (pre @ rest) = readLoop env st' rest"
proof (induction pre arbitrary: st)
  case Nil
  then show ?case by auto
next
  case (Cons x pre)
  obtain now item where x: "x = (now, item)" by (cases x)
  from Cons.prems x obtain m where item: "item = Decoded m"
    and ok: "ErrorMessage m = []" "Error m = None"
    and bk: "messageIsFromBuildkit m \<Longrightarrow>
      \<forall>bp. \<exists>bp'. toBuildkitStatus env (Aux m) bp = Returns (None, bp')"
    by (auto simp: validRecord_def split: decoded.splits)
  from Cons.prems have rest_ok: "\<forall>x\<in>set pre. validRecord env (snd x)" by simp
  let ?st2 = "progressBlock now (streamBlock st m) m"
  show ?case
  proof (cases "messageIsFromBuildkit m")
    case True
    from bk [OF True] obtain bp' where
      "toBuildkitStatus env (Aux m) (bkPrinter ?st2) = Returns (None, bp')" by blast
    then have "readLoop env st ((x # pre) @ rest) =
        readLoop env (auxBlock (?st2\<lparr>bkPrinter := bp'\<rparr>) m) (pre @ rest)"
      using x item ok True by (simp add: Let_def)
    with Cons.IH [OF rest_ok] show ?thesis by metis
  next
    case False
    then have "readLoop env st ((x # pre) @ rest) = readLoop env (auxBlock ?st2 m) (pre @ rest)"
      using x item ok by (simp add: Let_def)
    with Cons.IH [OF rest_ok] show ?thesis by metis
  qed
qed

lemma readLoop_error_record:
  assumes "ErrorMessage m \<noteq> [] \<or> Error m \<noteq> None"
  shows "\<exists>lg. readLoop env st ((now, Decoded m) # post) =
     Returns (dockerOutput_zero,
       Some (cleanupDockerBuildError
         (if ErrorMessage m \<noteq> [] then ErrorMessage m
          else (case Error m of Some e \<Rightarrow> Message e | None \<Rightarrow> []))), lg)"
  using assms by (auto simp: Let_def split: option.splits)

lemma readLoop_malformed_trace:
  assumes "ErrorMessage m = []" and "Error m = None" and "messageIsFromBuildkit m"
    and "Aux m = Some raw"
    and "jsonUnmarshalBytes env raw = Inl err \<or>
         (\<exists>dt. jsonUnmarshalBytes env raw = Inr dt \<and> statusUnmarshal env dt = Inl err)"
  shows "\<exists>lg. readLoop env st ((now, Decoded m) # post) =
     Returns (dockerOutput_zero, Some err, lg)"
  using assms by (auto simp: Let_def toBuildkitStatus_def)

text \<open>
  C7. When the records before the first error record are handled without a failure, the
  decoder stops at the error record, whatever follows it: it returns the empty output
  and, as the error, the message of the record (the top-level error string when there
  is one, else the message of the error object) after \<^verbatim>\<open>cleanupDockerBuildError\<close>, which
  trims the wrapper and then applies the two replacements in their order.
\<close>

theorem readDockerOutput_stops_at_error_record:
  assumes "\<forall>x\<in>set pre. validRecord env (snd x)"
    and "ErrorMessage m \<noteq> [] \<or> Error m \<noteq> None"
  shows "(\<exists>lg. readDockerOutput env (pre @ (now, Decoded m) # post) =
           Returns (dockerOutput_zero,
             Some (cleanupDockerBuildError
               (if ErrorMessage m \<noteq> [] then ErrorMessage m
                else (case Error m of Some e \<Rightarrow> Message e | None \<Rightarrow> []))), lg)) \<and>
         (\<forall>msg. cleanupDockerBuildError msg =
           ReplaceAllString_group1 (dockerBuildCleanupRexes ! 1)
             (ReplaceAllString_group1 (dockerBuildCleanupRexes ! 0)
               (TrimPrefix msg
                 ''failed to solve with frontend dockerfile.v0: failed to build LLB: '')))"
proof
  from readLoop_valid_prefix [OF assms(1)] obtain st' where
    "readDockerOutput env (pre @ (now, Decoded m) # post) =
       readLoop env st' ((now, Decoded m) # post)"
    unfolding readDockerOutput_def by blast
  with readLoop_error_record [OF assms(2), of env st' now post] show
    "\<exists>lg. readDockerOutput env (pre @ (now, Decoded m) # post) =
           Returns (dockerOutput_zero,
             Some (cleanupDockerBuildError
               (if ErrorMessage m \<noteq> [] then ErrorMessage m
                else (case Error m of Some e \<Rightarrow> Message e | None \<Rightarrow> []))), lg)"
    by (simp only:)
next
  show "\<forall>msg. cleanupDockerBuildError msg =
           ReplaceAllString_group1 (dockerBuildCleanupRexes ! 1)
             (ReplaceAllString_group1 (dockerBuildCleanupRexes ! 0)
               (TrimPrefix msg
                 ''failed to solve with frontend dockerfile.v0: failed to build LLB: ''))"
    by (simp add: cleanupDockerBuildError_def dockerBuildCleanupRexes_def)
qed

lemma cleanup_example_cache_key:
  "cleanupDockerBuildError
     ''failed to solve with frontend dockerfile.v0: failed to build LLB: failed to compute cache key: foo.txt not found: not found''
   = ''foo.txt not found''"
  by code_simp

lemma cleanup_example_runc:
  "cleanupDockerBuildError
     ''failed to solve with frontend dockerfile.v0: failed to build LLB: executor failed running [/bin/sh -c exit 1]: runc did not terminate sucessfully''
   = ''executor failed running [/bin/sh -c exit 1]''"
  by code_simp

theorem readDockerOutput_stops_at_error_record_witness:
  "\<exists>lg. readDockerOutput exampleEnv
     ([(0, Decoded (JSONMessage_zero\<lparr>Stream := ''Successfully built abcdef0123456789''\<rparr>)),
       (1, Decoded (JSONMessage_zero\<lparr>ID := ''moby.buildkit.trace'', Aux := Some ''CgA=''\<rparr>))] @
      (2, Decoded (JSONMessage_zero\<lparr>ErrorMessage :=
         ''failed to solve with frontend dockerfile.v0: failed to build LLB: failed to compute cache key: foo.txt not found: not found''\<rparr>)) #
      [(3, Decoded (JSONMessage_zero\<lparr>Aux := Some ''{ID:sha256:11}''\<rparr>))]) =
     Returns (dockerOutput_zero, Some ''foo.txt not found'', lg)"
proof -
  let ?pre = "[(0::int, Decoded (JSONMessage_zero\<lparr>Stream := ''Successfully built abcdef0123456789''\<rparr>)),
       (1, Decoded (JSONMessage_zero\<lparr>ID := ''moby.buildkit.trace'', Aux := Some ''CgA=''\<rparr>))]"
  let ?m = "JSONMessage_zero\<lparr>ErrorMessage :=
         ''failed to solve with frontend dockerfile.v0: failed to build LLB: failed to compute cache key: foo.txt not found: not found''\<rparr>"
  have valid: "\<forall>x\<in>set ?pre. validRecord exampleEnv (snd x)"
    by (simp add: validRecord_def JSONMessage_zero_def messageIsFromBuildkit_def
        toBuildkitStatus_def exampleEnv_def)
  have err: "ErrorMessage ?m \<noteq> [] \<or> Error ?m \<noteq> None"
    by (simp add: JSONMessage_zero_def)
  have msg: "(if ErrorMessage ?m \<noteq> [] then ErrorMessage ?m
      else (case Error ?m of Some e \<Rightarrow> Message e | None \<Rightarrow> [])) =
      ''failed to solve with frontend dockerfile.v0: failed to build LLB: failed to compute cache key: foo.txt not found: not found''"
    by (simp add: JSONMessage_zero_def)
  from readDockerOutput_stops_at_error_record [OF valid err, of 2
      "[(3, Decoded (JSONMessage_zero\<lparr>Aux := Some ''{ID:sha256:11}''\<rparr>))]"]
  show ?thesis
    unfolding msg cleanup_example_cache_key by blast
qed

text \<open>
  C10. Whenever the decoder returns an error, the output it returns is the empty value.
  The failure paths are reached: after records handled without a failure, a record that
  does not decode, and a graph-trace record whose payload does not decode, each make the
  decoder return the empty output with the error (a record with an error is C7).
\<close>

theorem readDockerOutput_failure_returns_zero:
  "(readDockerOutput env reader = Returns (out, Some err, lg) \<longrightarrow> out = dockerOutput_zero) \<and>
   ((\<forall>x\<in>set pre. validRecord env (snd x)) \<longrightarrow>
      (\<exists>lg'. readDockerOutput env (pre @ (now, Malformed e) # post) =
         Returns (dockerOutput_zero, Some (Wrap e ''decoding docker output''), lg'))) \<and>
   ((\<forall>x\<in>set pre. validRecord env (snd x)) \<and>
    ErrorMessage m = [] \<and> Error m = None \<and> messageIsFromBuildkit m \<and> Aux m = Some raw \<and>
    (jsonUnmarshalBytes env raw = Inl e \<or>
     (\<exists>dt. jsonUnmarshalBytes env raw = Inr dt \<and> statusUnmarshal env dt = Inl e)) \<longrightarrow>
      (\<exists>lg'. readDockerOutput env (pre @ (now, Decoded m) # post) =
         Returns (dockerOutput_zero, Some e, lg')))"
proof (intro conjI impI)
  assume "readDockerOutput env reader = Returns (out, Some err, lg)"
  then show "out = dockerOutput_zero"
    unfolding readDockerOutput_def by (rule readLoop_error_zero)
next
  assume "\<forall>x\<in>set pre. validRecord env (snd x)"
  from readLoop_valid_prefix [OF this] obtain st' where
    "readDockerOutput env (pre @ (now, Malformed e) # post) =
       readLoop env st' ((now, Malformed e) # post)"
    unfolding readDockerOutput_def by blast
  then show "\<exists>lg'. readDockerOutput env (pre @ (now, Malformed e) # post) =
         Returns (dockerOutput_zero, Some (Wrap e ''decoding docker output''), lg')"
    by simp
next
  assume a: "(\<forall>x\<in>set pre. validRecord env (snd x)) \<and>
    ErrorMessage m = [] \<and> Error m = None \<and> messageIsFromBuildkit m \<and> Aux m = Some raw \<and>
    (jsonUnmarshalBytes env raw = Inl e \<or>
     (\<exists>dt. jsonUnmarshalBytes env raw = Inr dt \<and> statusUnmarshal env dt = Inl e))"
  then have "\<forall>x\<in>set pre. validRecord env (snd x)" by blast
  from readLoop_valid_prefix [OF this] obtain st' where
    "readDockerOutput env (pre @ (now, Decoded m) # post) =
       readLoop env st' ((now, Decoded m) # post)"
    unfolding readDockerOutput_def by blast
  moreover from a have "\<exists>lg'. readLoop env st' ((now, Decoded m) # post) =
     Returns (dockerOutput_zero, Some e, lg')"
    by (intro readLoop_malformed_trace) blast+
  ultimately show "\<exists>lg'. readDockerOutput env (pre @ (now, Decoded m) # post) =
         Returns (dockerOutput_zero, Some e, lg')"
    by (simp only:)
qed

theorem readDockerOutput_failure_returns_zero_witness:
  "readDockerOutput exampleEnv
     [(0, Decoded (JSONMessage_zero\<lparr>Stream := ''Successfully built abcdef0123456789''\<rparr>)),
      (1, Decoded (JSONMessage_zero\<lparr>Aux := Some ''{ID:sha256:11}''\<rparr>))] =
     Returns (\<lparr>aux = Some ''{ID:sha256:11}'', shortDigest = ''abcdef0123456789''\<rparr>, None,
       [LogWrite ''Successfully built abcdef0123456789'']) \<and>
   (\<exists>lg. readDockerOutput exampleEnv
     ([(0, Decoded (JSONMessage_zero\<lparr>Stream := ''Successfully built abcdef0123456789''\<rparr>)),
       (1, Decoded (JSONMessage_zero\<lparr>Aux := Some ''{ID:sha256:11}''\<rparr>))] @
      (2, Malformed ''unexpected EOF'') # []) =
     Returns (dockerOutput_zero, Some ''decoding docker output: unexpected EOF'', lg)) \<and>
   (\<exists>lg. readDockerOutput exampleEnv
     ([(0, Decoded (JSONMessage_zero\<lparr>Stream := ''Successfully built abcdef0123456789''\<rparr>)),
       (1, Decoded (JSONMessage_zero\<lparr>Aux := Some ''{ID:sha256:11}''\<rparr>))] @
      (2, Decoded (JSONMessage_zero\<lparr>ID := ''moby.buildkit.trace'', Aux := Some []\<rparr>)) # []) =
     Returns (dockerOutput_zero, Some ''unexpected end of JSON input'', lg))"
proof -
  let ?pre = "[(0::int, Decoded (JSONMessage_zero\<lparr>Stream := ''Successfully built abcdef0123456789''\<rparr>)),
       (1, Decoded (JSONMessage_zero\<lparr>Aux := Some ''{ID:sha256:11}''\<rparr>))]"
  let ?m = "JSONMessage_zero\<lparr>ID := ''moby.buildkit.trace'', Aux := Some []\<rparr>"
  have observed: "readDockerOutput exampleEnv ?pre =
     Returns (\<lparr>aux = Some ''{ID:sha256:11}'', shortDigest = ''abcdef0123456789''\<rparr>, None,
       [LogWrite ''Successfully built abcdef0123456789''])"
    by code_simp
  have valid: "\<forall>x\<in>set ?pre. validRecord exampleEnv (snd x)"
    by (simp add: validRecord_def JSONMessage_zero_def messageIsFromBuildkit_def)
  have trace: "(\<forall>x\<in>set ?pre. validRecord exampleEnv (snd x)) \<and>
    ErrorMessage ?m = [] \<and> Error ?m = None \<and> messageIsFromBuildkit ?m \<and> Aux ?m = Some [] \<and>
    (jsonUnmarshalBytes exampleEnv [] = Inl ''unexpected end of JSON input'' \<or>
     (\<exists>dt. jsonUnmarshalBytes exampleEnv [] = Inr dt \<and>
        statusUnmarshal exampleEnv dt = Inl ''unexpected end of JSON input''))"
    using valid by (simp add: JSONMessage_zero_def messageIsFromBuildkit_def exampleEnv_def)
  from readDockerOutput_failure_returns_zero
    [of exampleEnv _ _ _ _ ?pre 2 "''unexpected EOF''" "[]" ?m "[]"] valid
  obtain lg1 where r1: "readDockerOutput exampleEnv (?pre @ (2, Malformed ''unexpected EOF'') # []) =
         Returns (dockerOutput_zero, Some (Wrap ''unexpected EOF'' ''decoding docker output''), lg1)"
    by blast
  from readDockerOutput_failure_returns_zero
    [of exampleEnv _ _ _ _ ?pre 2 "''unexpected end of JSON input''" "[]" ?m "[]"] trace
  obtain lg2 where r2: "readDockerOutput exampleEnv (?pre @ (2, Decoded ?m) # []) =
         Returns (dockerOutput_zero, Some ''unexpected end of JSON input'', lg2)"
    by blast
  from r1 have "\<exists>lg. readDockerOutput exampleEnv (?pre @ (2, Malformed ''unexpected EOF'') # []) =
     Returns (dockerOutput_zero, Some ''decoding docker output: unexpected EOF'', lg)"
    by (simp add: Wrap_def)
  with observed r2 show ?thesis by blast
qed

section \<open>The legacy digest pattern and digest recovery\<close>

lemma tryLongest_first:
  "lo \<le> n \<Longrightarrow> f n = Some r \<Longrightarrow> tryLongest f lo n = Some r"
  by (cases n) auto

lemma takeWhile_all: "\<forall>c\<in>set xs. P c \<Longrightarrow> takeWhile P xs = xs"
  by (induction xs) auto

lemma takeWhile_hex_then_space:
  assumes "\<forall>c\<in>set h. inClass LowerHex c" and "\<forall>c\<in>set w. inClass WhiteSpace c"
  shows "takeWhile (inClass LowerHex) (h @ w) = h"
proof -
  have "takeWhile (inClass LowerHex) w = []"
  proof (cases w)
    case Nil
    then show ?thesis by simp
  next
    case (Cons c cs)
    with assms(2) have "inClass WhiteSpace c" by simp
    then have "\<not> inClass LowerHex c" by auto
    with Cons show ?thesis by simp
  qed
  with assms(1) show ?thesis
    by (simp add: takeWhile_append2 takeWhile_all)
qed

lemma search_at_pos:
  "matchNodes re pos s (0, 0) = Some (e, cap) \<Longrightarrow> search re pos s = Some (pos, e, cap)"
  by (cases s) auto

lemma matchNodes_Literal_append:
  "matchNodes (Literal l # re) pos (l @ s) cap = matchNodes re (pos + length l) s cap"
  by (simp add: HasPrefix_def)

lemma digest_shape_match:
  assumes "h \<noteq> []" and "\<forall>c\<in>set h. inClass LowerHex c" and "\<forall>c\<in>set w. inClass WhiteSpace c"
  shows "matchNodes
           [BeginText, Literal P, CapOpen, Plus LowerHex, CapClose, Star WhiteSpace, EndText]
           0 (P @ h @ w) (0, 0) =
         Some (length P + length h + length w, length P, length P + length h)"
proof -
  have tail: "matchNodes [Star WhiteSpace, EndText] (length P + length h) w
      (length P, length P + length h) =
      Some (length P + length h + length w, length P, length P + length h)"
    using assms(3) by (simp add: takeWhile_all tryLongest_first)
  have "1 \<le> length h" using assms(1) by (cases h) auto
  moreover have "matchNodes [CapClose, Star WhiteSpace, EndText] (length P + length h)
      (drop (length h) (h @ w)) (length P, 0) =
      Some (length P + length h + length w, length P, length P + length h)"
    using tail by simp
  ultimately have plus:
    "matchNodes [Plus LowerHex, CapClose, Star WhiteSpace, EndText] (length P) (h @ w)
       (length P, 0) = Some (length P + length h + length w, length P, length P + length h)"
    using takeWhile_hex_then_space [OF assms(2,3)]
    by (simp only: matchNodes.simps tryLongest_first)
  have "matchNodes
      [BeginText, Literal P, CapOpen, Plus LowerHex, CapClose, Star WhiteSpace, EndText]
      0 (P @ h @ w) (0, 0) =
    matchNodes [Plus LowerHex, CapClose, Star WhiteSpace, EndText] (length P) (h @ w)
      (length P, 0)"
    by (simp only: matchNodes.simps(5,7) matchNodes_Literal_append refl if_True snd_conv add_0)
  with plus show ?thesis by (simp only:)
qed

lemma oldDigestRegexp_match:
  assumes "h \<noteq> []" and "\<forall>c\<in>set h. inClass LowerHex c" and "\<forall>c\<in>set w. inClass WhiteSpace c"
  shows "FindStringSubmatch oldDigestRegexp (''Successfully built '' @ h @ w) =
           [''Successfully built '' @ h @ w, h]"
proof -
  let ?P = "''Successfully built ''"
  have "search oldDigestRegexp 0 (?P @ h @ w) =
      Some (0, length ?P + length h + length w, length ?P, length ?P + length h)"
    unfolding oldDigestRegexp_def
    by (rule search_at_pos) (rule digest_shape_match [OF assms])
  then show ?thesis
    by (simp add: FindStringSubmatch_def slice_def)
qed

lemma streamBlock_digest_line:
  assumes "h \<noteq> []" and "\<forall>c\<in>set h. inClass LowerHex c" and "\<forall>c\<in>set w. inClass WhiteSpace c"
    and "Stream m = ''Successfully built '' @ h @ w"
  shows "streamBlock st m =
     st\<lparr>result := (result st)\<lparr>shortDigest := h\<rparr>, logged := logged st @ [LogWrite (Stream m)]\<rparr>"
  using oldDigestRegexp_match [OF assms(1-3)] assms(4)
  by (simp add: streamBlock_def Let_def)

lemma readDockerOutput_digest_line:
  assumes "h \<noteq> []" and "\<forall>c\<in>set h. inClass LowerHex c" and "\<forall>c\<in>set w. inClass WhiteSpace c"
    and "ctxErr env = None"
  shows "readDockerOutput env
      [(now, Decoded (JSONMessage_zero\<lparr>Stream := ''Successfully built '' @ h @ w\<rparr>))] =
    Returns (\<lparr>aux = None, shortDigest = h\<rparr>, None, [LogWrite (''Successfully built '' @ h @ w)])"
proof -
  let ?m = "JSONMessage_zero\<lparr>Stream := ''Successfully built '' @ h @ w\<rparr>"
  have s: "Stream ?m = ''Successfully built '' @ h @ w" by simp
  have m: "ErrorMessage ?m = []" "Error ?m = None" "Progress ?m = None" "Aux ?m = None"
    "\<not> messageIsFromBuildkit ?m"
    by (simp_all add: JSONMessage_zero_def messageIsFromBuildkit_def)
  show ?thesis
    unfolding readDockerOutput_def readLoop.simps Let_def
      streamBlock_digest_line [OF assms(1-3) s]
    using m assms(4)
    by (simp add: progressBlock_def auxBlock_def dockerOutput_zero_def)
qed

text \<open>
  C8. A stream line that matches the legacy pattern (the words, one or more lower-case
  hexadecimal digits, then only white space) sets the short digest to those digits. The
  digest is then recovered in three cases: from the aux payload when there is one (its
  \<^verbatim>\<open>ID\<close> entry); else, with a short digest, from the daemon's inspection of that short
  digest; else the error "Docker is not responding" is returned. For a build whose
  stream is one such line and for a build with an empty stream this is what
  \<^verbatim>\<open>getDigestFromBuildOutput\<close> returns.
\<close>

theorem digest_recovery_cases:
  "(h \<noteq> [] \<and> (\<forall>c\<in>set h. inClass LowerHex c) \<and> (\<forall>c\<in>set w. inClass WhiteSpace c) \<and>
    Stream m = ''Successfully built '' @ h @ w \<longrightarrow>
      shortDigest (result (streamBlock st m)) = h \<and>
      aux (result (streamBlock st m)) = aux (result st)) \<and>
   (aux output = Some a \<longrightarrow>
      getDigestFromDockerOutput u i output = getDigestFromAux u a) \<and>
   (u a = Inr mp \<and> mp ''ID'' = Some ident \<longrightarrow> getDigestFromAux u a = (ident, None)) \<and>
   (aux output = None \<and> shortDigest output \<noteq> [] \<longrightarrow>
      getDigestFromDockerOutput u i output =
        (case i (shortDigest output) of
           Inl err \<Rightarrow> ([], Some err)
         | Inr ident \<Rightarrow> (ident, None))) \<and>
   (aux output = None \<and> shortDigest output = [] \<longrightarrow>
      getDigestFromDockerOutput u i output = ([], Some dockerNotResponding)) \<and>
   (h \<noteq> [] \<and> (\<forall>c\<in>set h. inClass LowerHex c) \<and> (\<forall>c\<in>set w. inClass WhiteSpace c) \<and>
    ctxErr env = None \<longrightarrow>
      getDigestFromBuildOutput env u i
        [(now, Decoded (JSONMessage_zero\<lparr>Stream := ''Successfully built '' @ h @ w\<rparr>))] =
      Returns (case i h of
                 Inl err \<Rightarrow> ([], Some (Wrap err ''getDigestFromBuildOutput''))
               | Inr ident \<Rightarrow> (ident, None))) \<and>
   (ctxErr env = None \<longrightarrow>
      getDigestFromBuildOutput env u i [] =
      Returns ([], Some (Wrap dockerNotResponding ''getDigestFromBuildOutput'')))"
proof (intro conjI impI)
  assume a: "h \<noteq> [] \<and> (\<forall>c\<in>set h. inClass LowerHex c) \<and> (\<forall>c\<in>set w. inClass WhiteSpace c) \<and>
    Stream m = ''Successfully built '' @ h @ w"
  then have sb: "streamBlock st m =
     st\<lparr>result := (result st)\<lparr>shortDigest := h\<rparr>, logged := logged st @ [LogWrite (Stream m)]\<rparr>"
    by (intro streamBlock_digest_line) blast+
  show "shortDigest (result (streamBlock st m)) = h" by (simp add: sb)
  show "aux (result (streamBlock st m)) = aux (result st)" by (simp add: sb)
next
  assume "aux output = Some a"
  then show "getDigestFromDockerOutput u i output = getDigestFromAux u a"
    by (simp add: getDigestFromDockerOutput_def)
next
  assume "u a = Inr mp \<and> mp ''ID'' = Some ident"
  then show "getDigestFromAux u a = (ident, None)"
    by (simp add: getDigestFromAux_def)
next
  assume "aux output = None \<and> shortDigest output \<noteq> []"
  then show "getDigestFromDockerOutput u i output =
        (case i (shortDigest output) of
           Inl err \<Rightarrow> ([], Some err)
         | Inr ident \<Rightarrow> (ident, None))"
    by (simp add: getDigestFromDockerOutput_def)
next
  assume "aux output = None \<and> shortDigest output = []"
  then show "getDigestFromDockerOutput u i output = ([], Some dockerNotResponding)"
    by (simp add: getDigestFromDockerOutput_def)
next
  assume a: "h \<noteq> [] \<and> (\<forall>c\<in>set h. inClass LowerHex c) \<and> (\<forall>c\<in>set w. inClass WhiteSpace c) \<and>
    ctxErr env = None"
  then have "readDockerOutput env
      [(now, Decoded (JSONMessage_zero\<lparr>Stream := ''Successfully built '' @ h @ w\<rparr>))] =
    Returns (\<lparr>aux = None, shortDigest = h\<rparr>, None, [LogWrite (''Successfully built '' @ h @ w)])"
    by (intro readDockerOutput_digest_line) blast+
  moreover from a have "h \<noteq> []" by blast
  ultimately show "getDigestFromBuildOutput env u i
        [(now, Decoded (JSONMessage_zero\<lparr>Stream := ''Successfully built '' @ h @ w\<rparr>))] =
      Returns (case i h of
                 Inl err \<Rightarrow> ([], Some (Wrap err ''getDigestFromBuildOutput''))
               | Inr ident \<Rightarrow> (ident, None))"
    by (simp add: getDigestFromBuildOutput_def getDigestFromDockerOutput_def split: sum.splits)
next
  assume "ctxErr env = None"
  then show "getDigestFromBuildOutput env u i [] =
      Returns ([], Some (Wrap dockerNotResponding ''getDigestFromBuildOutput''))"
    by (simp add: getDigestFromBuildOutput_def readDockerOutput_def
        getDigestFromDockerOutput_def dockerOutput_zero_def)
qed

theorem digest_recovery_cases_witness:
  "getDigestFromBuildOutput exampleEnv exampleUnmarshalMap exampleInspect
     [(0, Decoded (JSONMessage_zero\<lparr>Stream := ''Successfully built '' @ ''abcdef0123456789'' @ [CHR 0x0A]\<rparr>))] =
     Returns (''sha256:abcdef0123456789aaaa'', None) \<and>
   getDigestFromBuildOutput exampleEnv exampleUnmarshalMap exampleInspect [] =
     Returns ([], Some (Wrap dockerNotResponding ''getDigestFromBuildOutput'')) \<and>
   getDigestFromDockerOutput exampleUnmarshalMap exampleInspect
     \<lparr>aux = Some ''{ID:sha256:11}'', shortDigest = ''abcdef0123456789''\<rparr> = (''sha256:11'', None) \<and>
   getDigestFromDockerOutput exampleUnmarshalMap exampleInspect
     \<lparr>aux = None, shortDigest = ''abcdef0123456789''\<rparr> = (''sha256:abcdef0123456789aaaa'', None) \<and>
   getDigestFromDockerOutput exampleUnmarshalMap exampleInspect
     \<lparr>aux = None, shortDigest = []\<rparr> = ([], Some dockerNotResponding) \<and>
   shortDigest (result (streamBlock
     \<lparr>result = dockerOutput_zero, progressLastPrinted = Map.empty, progressPrintWait = Map.empty,
      bkPrinter = (), logged = []\<rparr>
     (JSONMessage_zero\<lparr>Stream := ''Successfully built '' @ ''abcdef0123456789'' @ [CHR 0x0A]\<rparr>))) =
     ''abcdef0123456789''"
proof -
  let ?h = "''abcdef0123456789''"
  let ?w = "[CHR 0x0A]"
  let ?m = "JSONMessage_zero\<lparr>Stream := ''Successfully built '' @ ?h @ ?w\<rparr>"
  let ?st = "\<lparr>result = dockerOutput_zero, progressLastPrinted = Map.empty,
      progressPrintWait = Map.empty, bkPrinter = (), logged = []\<rparr>"
  let ?o1 = "\<lparr>aux = Some ''{ID:sha256:11}'', shortDigest = ''abcdef0123456789''\<rparr>"
  let ?o2 = "\<lparr>aux = None, shortDigest = ''abcdef0123456789''\<rparr>"
  let ?o3 = "\<lparr>aux = None, shortDigest = []\<rparr>"
  have shape: "?h \<noteq> [] \<and> (\<forall>c\<in>set ?h. inClass LowerHex c) \<and> (\<forall>c\<in>set ?w. inClass WhiteSpace c)"
    by simp
  have line: "Stream ?m = ''Successfully built '' @ ?h @ ?w" by simp
  have ctx: "ctxErr exampleEnv = None" by (simp add: exampleEnv_def)
  have insp: "exampleInspect ?h = Inr ''sha256:abcdef0123456789aaaa''"
    by (simp add: exampleInspect_def)
  have unm: "exampleUnmarshalMap ''{ID:sha256:11}'' = Inr [''ID'' \<mapsto> ''sha256:11''] \<and>
      [''ID'' \<mapsto> ''sha256:11''] ''ID'' = Some ''sha256:11''"
    by (simp add: exampleUnmarshalMap_def)
  note t1 = digest_recovery_cases [of ?h ?w ?m ?st ?o1 "''{ID:sha256:11}''" exampleUnmarshalMap
      exampleInspect "[''ID'' \<mapsto> ''sha256:11'']" "''sha256:11''" exampleEnv 0]
  note t2 = digest_recovery_cases [of ?h ?w ?m ?st ?o2 "''{ID:sha256:11}''" exampleUnmarshalMap
      exampleInspect "[''ID'' \<mapsto> ''sha256:11'']" "''sha256:11''" exampleEnv 0]
  note t3 = digest_recovery_cases [of ?h ?w ?m ?st ?o3 "''{ID:sha256:11}''" exampleUnmarshalMap
      exampleInspect "[''ID'' \<mapsto> ''sha256:11'']" "''sha256:11''" exampleEnv 0]
  from t1 shape line have c1: "shortDigest (result (streamBlock ?st ?m)) = ?h" by blast
  from t1 shape ctx have "getDigestFromBuildOutput exampleEnv exampleUnmarshalMap exampleInspect
      [(0, Decoded ?m)] =
      Returns (case exampleInspect ?h of
                 Inl err \<Rightarrow> ([], Some (Wrap err ''getDigestFromBuildOutput''))
               | Inr ident \<Rightarrow> (ident, None))" by blast
  then have c2: "getDigestFromBuildOutput exampleEnv exampleUnmarshalMap exampleInspect
      [(0, Decoded ?m)] = Returns (''sha256:abcdef0123456789aaaa'', None)"
    by (simp only: insp sum.case)
  from t1 ctx have c3: "getDigestFromBuildOutput exampleEnv exampleUnmarshalMap exampleInspect [] =
      Returns ([], Some (Wrap dockerNotResponding ''getDigestFromBuildOutput''))" by blast
  have "aux ?o1 = Some ''{ID:sha256:11}''" by simp
  with t1 unm have c4: "getDigestFromDockerOutput exampleUnmarshalMap exampleInspect ?o1 =
      (''sha256:11'', None)" by metis
  have "aux ?o2 = None \<and> shortDigest ?o2 \<noteq> []" by simp
  with t2 have "getDigestFromDockerOutput exampleUnmarshalMap exampleInspect ?o2 =
      (case exampleInspect (shortDigest ?o2) of
           Inl err \<Rightarrow> ([], Some err)
         | Inr ident \<Rightarrow> (ident, None))" by blast
  then have c5: "getDigestFromDockerOutput exampleUnmarshalMap exampleInspect ?o2 =
      (''sha256:abcdef0123456789aaaa'', None)"
    by (simp add: insp)
  have "aux ?o3 = None \<and> shortDigest ?o3 = []" by simp
  with t3 have c6: "getDigestFromDockerOutput exampleUnmarshalMap exampleInspect ?o3 =
      ([], Some dockerNotResponding)" by blast
  from c1 c2 c3 c4 c5 c6 show ?thesis by blast
qed

section \<open>Properties of the manifest synthesis\<close>

lemma foldl_Join: "foldl (\<lambda>df p. df_Join df (copyLine p)) df ps = df @ map (\<lambda>p. Line (copyLine p)) ps"
  by (induction ps arbitrary: df) (auto simp: df_Join_def)

lemma addRemainingRuns_append: "addRemainingRuns df rs = df @ map (\<lambda>r. RunInstr (Cmd r)) rs"
  unfolding addRemainingRuns_def by (induction rs arbitrary: df) (auto simp: df_Run_def)

lemma applyLabels_append:
  "applyLabels env d df bm =
     df @ LabelInstr (BuildMode env) bm # map (\<lambda>(k, v). LabelInstr k v) (extraLabels d)"
proof -
  have "foldl (\<lambda>df (k, v). df_WithLabel df k v) df' ls = df' @ map (\<lambda>(k, v). LabelInstr k v) ls"
    for df' :: Dockerfile and ls
    by (induction ls arbitrary: df') (auto simp: df_WithLabel_def)
  then show ?thesis by (simp add: applyLabels_def df_WithLabel_def)
qed

lemma loop_step_resolved:
  assumes "conditionalRun r" and "resolvesTo env paths r ps" and "ps \<noteq> []"
  shows "addConditionalRuns_loop env paths df consumed (r # rs) =
         addConditionalRuns_loop env paths (df @ runBlock ps r) (Suc consumed) rs"
  using assms
  by (auto simp: conditionalRun_def resolvesTo_def runBlock_def foldl_Join df_Run_def
      split: sum.splits)

lemma loop_front:
  assumes "\<forall>r\<in>set front. conditionalRun r \<and> resolvesTo env paths r (sel r) \<and> sel r \<noteq> []"
    and "case rest of [] \<Rightarrow> True | r # rs \<Rightarrow> \<not> conditionalRun r"
  shows "addConditionalRuns_loop env paths df consumed (front @ rest) =
         (df @ concat (map (\<lambda>r. runBlock (sel r) r) front), consumed + length front, None)"
  using assms(1)
proof (induction front arbitrary: df consumed)
  case Nil
  then show ?case using assms(2)
    by (cases rest) (auto simp: conditionalRun_def)
next
  case (Cons r front)
  from Cons.prems have r: "conditionalRun r" "resolvesTo env paths r (sel r)" "sel r \<noteq> []"
    by auto
  from Cons.prems have front:
    "\<forall>r\<in>set front. conditionalRun r \<and> resolvesTo env paths r (sel r) \<and> sel r \<noteq> []"
    by simp
  have "addConditionalRuns_loop env paths df consumed ((r # front) @ rest) =
      addConditionalRuns_loop env paths (df @ runBlock (sel r) r) (Suc consumed) (front @ rest)"
    unfolding append_Cons by (rule loop_step_resolved [OF r])
  also have "\<dots> = ((df @ runBlock (sel r) r) @ concat (map (\<lambda>r. runBlock (sel r) r) front),
      Suc consumed + length front, None)"
    by (rule Cons.IH [OF front])
  finally show ?case by simp
qed

lemma loop_fails_at:
  assumes "\<forall>r\<in>set front. conditionalRun r \<and> (\<exists>ps. resolvesTo env paths r ps \<and> ps \<noteq> [])"
    and "conditionalRun r" and "resolvesTo env paths r []"
  shows "addConditionalRuns_loop env paths df consumed (front @ r # rest) =
         ([], consumed + length front, Some (''No inputs for run: '' @ CmdString env (Cmd r)))"
  using assms(1)
proof (induction front arbitrary: df consumed)
  case Nil
  then show ?case using assms(2,3)
    by (auto simp: conditionalRun_def resolvesTo_def split: sum.splits)
next
  case (Cons q front)
  then obtain ps where q: "conditionalRun q" "resolvesTo env paths q ps" "ps \<noteq> []" by auto
  from Cons.prems have front:
    "\<forall>r\<in>set front. conditionalRun r \<and> (\<exists>ps. resolvesTo env paths r ps \<and> ps \<noteq> [])"
    by simp
  have "addConditionalRuns_loop env paths df consumed ((q # front) @ r # rest) =
      addConditionalRuns_loop env paths (df @ runBlock ps q) (Suc consumed) (front @ r # rest)"
    unfolding append_Cons by (rule loop_step_resolved [OF q])
  also have "\<dots> = ([], Suc consumed + length front,
      Some (''No inputs for run: '' @ CmdString env (Cmd r)))"
    by (rule Cons.IH [OF front])
  finally show ?case by simp
qed

lemma loop_success_resolves:
  assumes "addConditionalRuns_loop env paths df consumed runs = (df', n, None)"
    and "r \<in> set (takeWhile conditionalRun runs)"
  shows "\<not> resolvesTo env paths r []"
  using assms
proof (induction runs arbitrary: df consumed)
  case Nil
  then show ?case by simp
next
  case (Cons q runs)
  show ?case
  proof (cases "conditionalRun q")
    case False
    with Cons.prems(2) show ?thesis by simp
  next
    case True
    from Cons.prems(1) True obtain ps where ps: "resolvesTo env paths q ps" "ps \<noteq> []"
      by (auto simp: conditionalRun_def resolvesTo_def split: sum.splits if_splits)
    have rec:
      "addConditionalRuns_loop env paths (df @ runBlock ps q) (Suc consumed) runs = (df', n, None)"
      using loop_step_resolved [OF True ps, of df consumed runs] Cons.prems(1) by (simp only:)
    from Cons.prems(2) True have "r = q \<or> r \<in> set (takeWhile conditionalRun runs)" by auto
    then show ?thesis
    proof
      assume "r = q"
      with ps show ?thesis by (auto simp: resolvesTo_def split: sum.splits)
    next
      assume "r \<in> set (takeWhile conditionalRun runs)"
      with Cons.IH [OF rec] show ?thesis by simp
    qed
  qed
qed

lemma DeprecatedFastBuildImage_ok:
  assumes "addConditionalRuns_loop env paths base 0 runs = (df, n, None)"
  shows "DeprecatedFastBuildImage env d base paths runs entrypoint =
         Inr (df @ manifestTail env d (drop n runs) entrypoint)"
  using assms
  by (simp add: DeprecatedFastBuildImage_def addConditionalRuns_def Let_def manifestTail_def
      df_AddAll_def addRemainingRuns_append df_Entrypoint_def applyLabels_append)

lemma DeprecatedFastBuildImage_failed:
  assumes "addConditionalRuns_loop env paths base 0 runs = (df, n, Some err)"
  shows "DeprecatedFastBuildImage env d base paths runs entrypoint =
         Inl (Wrap err ''DeprecatedFastBuildImage'')"
  using assms
  by (simp add: DeprecatedFastBuildImage_def addConditionalRuns_def Let_def)

text \<open>
  C4. Let the runs be \<open>front @ rest\<close>, every run of \<open>front\<close> conditional and resolved to a
  non-empty list of path mappings, and \<open>rest\<close> empty or beginning with a run whose trigger
  set is empty. The manifest is the base, then for each run of \<open>front\<close> in order one
  \<^verbatim>\<open>COPY p p\<close> line per resolved path mapping followed by the run-instruction, then the
  catch-all copy-instruction, then the run-instruction of every run of \<open>rest\<close> in order
  (whatever their trigger sets), then the entrypoint and the labels. When no run is
  conditional, the catch-all copy-instruction is the first instruction after the base
  and all run-instructions follow it.
\<close>

theorem DeprecatedFastBuildImage_order:
  "((\<forall>r\<in>set front. conditionalRun r \<and> resolvesTo env paths r (sel r) \<and> sel r \<noteq> []) \<and>
    (case rest of [] \<Rightarrow> True | r # rs \<Rightarrow> \<not> conditionalRun r) \<longrightarrow>
      DeprecatedFastBuildImage env d base paths (front @ rest) entrypoint =
        Inr (base @
             concat (map (\<lambda>r. map (\<lambda>p. Line (''COPY '' @ ContainerPath p @ '' '' @ ContainerPath p))
                                 (sel r) @ [RunInstr (Cmd r)]) front) @
             [AddAllInstr] @ map (\<lambda>r. RunInstr (Cmd r)) rest @
             (if Cmd_Empty entrypoint then [] else [EntrypointInstr entrypoint]) @
             LabelInstr (BuildMode env) (BuildModeScratch env) #
             map (\<lambda>(k, v). LabelInstr k v) (extraLabels d))) \<and>
   ((\<forall>r\<in>set runs. \<not> conditionalRun r) \<longrightarrow>
      DeprecatedFastBuildImage env d base paths runs entrypoint =
        Inr (base @ AddAllInstr # map (\<lambda>r. RunInstr (Cmd r)) runs @
             (if Cmd_Empty entrypoint then [] else [EntrypointInstr entrypoint]) @
             LabelInstr (BuildMode env) (BuildModeScratch env) #
             map (\<lambda>(k, v). LabelInstr k v) (extraLabels d)))"
proof (intro conjI impI)
  assume a: "(\<forall>r\<in>set front. conditionalRun r \<and> resolvesTo env paths r (sel r) \<and> sel r \<noteq> []) \<and>
    (case rest of [] \<Rightarrow> True | r # rs \<Rightarrow> \<not> conditionalRun r)"
  then have "addConditionalRuns_loop env paths base 0 (front @ rest) =
      (base @ concat (map (\<lambda>r. runBlock (sel r) r) front), 0 + length front, None)"
    by (intro loop_front) blast+
  from DeprecatedFastBuildImage_ok [OF this]
  show "DeprecatedFastBuildImage env d base paths (front @ rest) entrypoint =
        Inr (base @
             concat (map (\<lambda>r. map (\<lambda>p. Line (''COPY '' @ ContainerPath p @ '' '' @ ContainerPath p))
                                 (sel r) @ [RunInstr (Cmd r)]) front) @
             [AddAllInstr] @ map (\<lambda>r. RunInstr (Cmd r)) rest @
             (if Cmd_Empty entrypoint then [] else [EntrypointInstr entrypoint]) @
             LabelInstr (BuildMode env) (BuildModeScratch env) #
             map (\<lambda>(k, v). LabelInstr k v) (extraLabels d))"
    by (simp add: manifestTail_def runBlock_def copyLine_def)
next
  assume a: "\<forall>r\<in>set runs. \<not> conditionalRun r"
  have "addConditionalRuns_loop env paths base 0 ([] @ runs) =
      (base @ concat (map (\<lambda>r. runBlock [] r) []), 0 + length ([] :: Run list), None)"
    using a by (intro loop_front) (auto split: list.splits)
  then have "addConditionalRuns_loop env paths base 0 runs = (base, 0, None)" by simp
  from DeprecatedFastBuildImage_ok [OF this]
  show "DeprecatedFastBuildImage env d base paths runs entrypoint =
        Inr (base @ AddAllInstr # map (\<lambda>r. RunInstr (Cmd r)) runs @
             (if Cmd_Empty entrypoint then [] else [EntrypointInstr entrypoint]) @
             LabelInstr (BuildMode env) (BuildModeScratch env) #
             map (\<lambda>(k, v). LabelInstr k v) (extraLabels d))"
    by (simp add: manifestTail_def)
qed

theorem DeprecatedFastBuildImage_order_witness:
  "DeprecatedFastBuildImage exampleSynthEnv exampleBuilder [Line ''FROM node''] examplePaths
     ([npmInstall] @ [npmBuild, goGenerate]) \<lparr>Argv = [''node'', ''main.js'']\<rparr> =
     Inr [Line ''FROM node'',
          Line ''COPY /package.json /package.json'', RunInstr \<lparr>Argv = [''npm'', ''install'']\<rparr>,
          AddAllInstr,
          RunInstr \<lparr>Argv = [''npm'', ''build'']\<rparr>, RunInstr \<lparr>Argv = [''go'', ''generate'']\<rparr>,
          EntrypointInstr \<lparr>Argv = [''node'', ''main.js'']\<rparr>,
          LabelInstr ''tilt.buildMode'' ''scratch'', LabelInstr ''tilt.test'' ''1''] \<and>
   conditionalRun goGenerate \<and>
   DeprecatedFastBuildImage exampleSynthEnv exampleBuilder [Line ''FROM node''] examplePaths
     [npmBuild] \<lparr>Argv = []\<rparr> =
     Inr [Line ''FROM node'', AddAllInstr, RunInstr \<lparr>Argv = [''npm'', ''build'']\<rparr>,
          LabelInstr ''tilt.buildMode'' ''scratch'', LabelInstr ''tilt.test'' ''1'']"
proof -
  let ?sel = "\<lambda>r::Run. [\<lparr>LocalPath = ''package.json'', ContainerPath = ''/package.json''\<rparr>]"
  let ?entry = "\<lparr>Argv = [''node'', ''main.js'']\<rparr>"
  have front: "\<forall>r\<in>set [npmInstall].
      conditionalRun r \<and> resolvesTo exampleSynthEnv examplePaths r (?sel r) \<and> ?sel r \<noteq> []"
    by (simp add: conditionalRun_def Triggers_Empty_def resolvesTo_def exampleSynthEnv_def
        examplePaths_def npmInstall_def)
  have rest: "case [npmBuild, goGenerate] of [] \<Rightarrow> True | r # rs \<Rightarrow> \<not> conditionalRun r"
    by (simp add: conditionalRun_def Triggers_Empty_def npmBuild_def)
  have none: "\<forall>r\<in>set [npmBuild]. \<not> conditionalRun r"
    by (simp add: conditionalRun_def Triggers_Empty_def npmBuild_def)
  have later: "conditionalRun goGenerate"
    by (simp add: conditionalRun_def Triggers_Empty_def goGenerate_def)
  from DeprecatedFastBuildImage_order [of "[npmInstall]" exampleSynthEnv examplePaths ?sel
      "[npmBuild, goGenerate]" exampleBuilder "[Line ''FROM node'']" ?entry "[npmBuild]"]
    front rest
  have "DeprecatedFastBuildImage exampleSynthEnv exampleBuilder [Line ''FROM node''] examplePaths
     ([npmInstall] @ [npmBuild, goGenerate]) ?entry =
     Inr ([Line ''FROM node''] @
             concat (map (\<lambda>r. map (\<lambda>p. Line (''COPY '' @ ContainerPath p @ '' '' @ ContainerPath p))
                                 (?sel r) @ [RunInstr (Cmd r)]) [npmInstall]) @
             [AddAllInstr] @ map (\<lambda>r. RunInstr (Cmd r)) [npmBuild, goGenerate] @
             (if Cmd_Empty ?entry then [] else [EntrypointInstr ?entry]) @
             LabelInstr (BuildMode exampleSynthEnv) (BuildModeScratch exampleSynthEnv) #
             map (\<lambda>(k, v). LabelInstr k v) (extraLabels exampleBuilder))"
    by blast
  then have first: "DeprecatedFastBuildImage exampleSynthEnv exampleBuilder [Line ''FROM node'']
     examplePaths ([npmInstall] @ [npmBuild, goGenerate]) ?entry =
     Inr [Line ''FROM node'',
          Line ''COPY /package.json /package.json'', RunInstr \<lparr>Argv = [''npm'', ''install'']\<rparr>,
          AddAllInstr,
          RunInstr \<lparr>Argv = [''npm'', ''build'']\<rparr>, RunInstr \<lparr>Argv = [''go'', ''generate'']\<rparr>,
          EntrypointInstr \<lparr>Argv = [''node'', ''main.js'']\<rparr>,
          LabelInstr ''tilt.buildMode'' ''scratch'', LabelInstr ''tilt.test'' ''1'']"
    by (simp add: npmInstall_def npmBuild_def goGenerate_def Cmd_Empty_def exampleSynthEnv_def
        exampleBuilder_def)
  from DeprecatedFastBuildImage_order [of "[]" exampleSynthEnv examplePaths ?sel
      "[]" exampleBuilder "[Line ''FROM node'']" "\<lparr>Argv = []\<rparr>" "[npmBuild]"] none
  have "DeprecatedFastBuildImage exampleSynthEnv exampleBuilder [Line ''FROM node''] examplePaths
     [npmBuild] \<lparr>Argv = []\<rparr> =
     Inr ([Line ''FROM node''] @ AddAllInstr # map (\<lambda>r. RunInstr (Cmd r)) [npmBuild] @
             (if Cmd_Empty \<lparr>Argv = []\<rparr> then [] else [EntrypointInstr \<lparr>Argv = []\<rparr>]) @
             LabelInstr (BuildMode exampleSynthEnv) (BuildModeScratch exampleSynthEnv) #
             map (\<lambda>(k, v). LabelInstr k v) (extraLabels exampleBuilder))"
    by blast
  then have second: "DeprecatedFastBuildImage exampleSynthEnv exampleBuilder [Line ''FROM node'']
     examplePaths [npmBuild] \<lparr>Argv = []\<rparr> =
     Inr [Line ''FROM node'', AddAllInstr, RunInstr \<lparr>Argv = [''npm'', ''build'']\<rparr>,
          LabelInstr ''tilt.buildMode'' ''scratch'', LabelInstr ''tilt.test'' ''1'']"
    by (simp add: npmBuild_def Cmd_Empty_def exampleSynthEnv_def exampleBuilder_def)
  from first later second show ?thesis by blast
qed

text \<open>
  C5, as the code has it. When a run of the conditional prefix resolves to no path
  mapping, the synthesis fails and gives no manifest. The error is
  \<^verbatim>\<open>DeprecatedFastBuildImage: No inputs for run: <cmd>\<close> for the first such run, provided
  the conditional runs before it resolve to a non-empty list each.
\<close>

theorem DeprecatedFastBuildImage_no_inputs:
  "(r \<in> set (takeWhile conditionalRun runs) \<and> resolvesTo env paths r [] \<longrightarrow>
      (\<exists>e. DeprecatedFastBuildImage env d base paths runs entrypoint = Inl e)) \<and>
   ((\<forall>q\<in>set front. conditionalRun q \<and> (\<exists>ps. resolvesTo env paths q ps \<and> ps \<noteq> [])) \<and>
    conditionalRun r \<and> resolvesTo env paths r [] \<longrightarrow>
      DeprecatedFastBuildImage env d base paths (front @ r # rest) entrypoint =
        Inl (''DeprecatedFastBuildImage: No inputs for run: '' @ CmdString env (Cmd r)))"
proof (intro conjI impI)
  assume a: "r \<in> set (takeWhile conditionalRun runs) \<and> resolvesTo env paths r []"
  obtain df n e where loop: "addConditionalRuns_loop env paths base 0 runs = (df, n, e)"
    by (cases "addConditionalRuns_loop env paths base 0 runs") auto
  show "\<exists>e. DeprecatedFastBuildImage env d base paths runs entrypoint = Inl e"
  proof (cases e)
    case None
    with loop a loop_success_resolves [of env paths base 0 runs df n r] show ?thesis by blast
  next
    case (Some err)
    with loop DeprecatedFastBuildImage_failed [of env paths base runs df n err d entrypoint]
    show ?thesis by blast
  qed
next
  assume a: "(\<forall>q\<in>set front. conditionalRun q \<and> (\<exists>ps. resolvesTo env paths q ps \<and> ps \<noteq> [])) \<and>
    conditionalRun r \<and> resolvesTo env paths r []"
  then have "addConditionalRuns_loop env paths base 0 (front @ r # rest) =
         ([], 0 + length front, Some (''No inputs for run: '' @ CmdString env (Cmd r)))"
    by (intro loop_fails_at) blast+
  from DeprecatedFastBuildImage_failed [OF this]
  show "DeprecatedFastBuildImage env d base paths (front @ r # rest) entrypoint =
        Inl (''DeprecatedFastBuildImage: No inputs for run: '' @ CmdString env (Cmd r))"
    by (simp add: Wrap_def)
qed

theorem DeprecatedFastBuildImage_no_inputs_witness:
  "DeprecatedFastBuildImage exampleSynthEnv exampleBuilder [Line ''FROM node''] examplePaths
     ([npmInstall] @ pipInstall # [npmBuild]) \<lparr>Argv = []\<rparr> =
     Inl ''DeprecatedFastBuildImage: No inputs for run: pip install'' \<and>
   (\<exists>e. DeprecatedFastBuildImage exampleSynthEnv exampleBuilder [Line ''FROM node''] examplePaths
     [pipInstall, goGenerate] \<lparr>Argv = []\<rparr> = Inl e)"
proof -
  have front: "\<forall>q\<in>set [npmInstall]. conditionalRun q \<and>
      (\<exists>ps. resolvesTo exampleSynthEnv examplePaths q ps \<and> ps \<noteq> [])"
    by (simp add: conditionalRun_def Triggers_Empty_def resolvesTo_def exampleSynthEnv_def
        examplePaths_def npmInstall_def)
  have pip: "conditionalRun pipInstall \<and> resolvesTo exampleSynthEnv examplePaths pipInstall []"
    by (simp add: conditionalRun_def Triggers_Empty_def resolvesTo_def exampleSynthEnv_def
        examplePaths_def pipInstall_def)
  have gen: "goGenerate \<in> set (takeWhile conditionalRun [pipInstall, goGenerate]) \<and>
      resolvesTo exampleSynthEnv examplePaths goGenerate []"
    by (simp add: conditionalRun_def Triggers_Empty_def resolvesTo_def exampleSynthEnv_def
        examplePaths_def pipInstall_def goGenerate_def)
  from DeprecatedFastBuildImage_no_inputs [of pipInstall "[pipInstall, goGenerate]" exampleSynthEnv
      examplePaths exampleBuilder "[Line ''FROM node'']" "\<lparr>Argv = []\<rparr>" "[npmInstall]" "[npmBuild]"]
    front pip
  have "DeprecatedFastBuildImage exampleSynthEnv exampleBuilder [Line ''FROM node''] examplePaths
     ([npmInstall] @ pipInstall # [npmBuild]) \<lparr>Argv = []\<rparr> =
     Inl (''DeprecatedFastBuildImage: No inputs for run: '' @
          CmdString exampleSynthEnv (Cmd pipInstall))"
    by blast
  then have first: "DeprecatedFastBuildImage exampleSynthEnv exampleBuilder [Line ''FROM node'']
     examplePaths ([npmInstall] @ pipInstall # [npmBuild]) \<lparr>Argv = []\<rparr> =
     Inl ''DeprecatedFastBuildImage: No inputs for run: pip install''"
    by (simp add: exampleSynthEnv_def pipInstall_def)
  from DeprecatedFastBuildImage_no_inputs [of goGenerate "[pipInstall, goGenerate]" exampleSynthEnv
      examplePaths exampleBuilder "[Line ''FROM node'']" "\<lparr>Argv = []\<rparr>" "[]" "[]"] gen
  have "\<exists>e. DeprecatedFastBuildImage exampleSynthEnv exampleBuilder [Line ''FROM node'']
     examplePaths [pipInstall, goGenerate] \<lparr>Argv = []\<rparr> = Inl e"
    by blast
  with first show ?thesis by blast
qed

text \<open>
  The claim C5 as stated fails for a second run without inputs: \<^verbatim>\<open>go generate\<close> is in the
  conditional prefix and resolves to no path mapping, and the error names \<^verbatim>\<open>pip install\<close>.
\<close>

theorem DeprecatedFastBuildImage_names_first_run_only:
  "goGenerate \<in> set (takeWhile conditionalRun [pipInstall, goGenerate]) \<and>
   resolvesTo exampleSynthEnv examplePaths goGenerate [] \<and>
   CmdString exampleSynthEnv (Cmd goGenerate) = ''go generate'' \<and>
   DeprecatedFastBuildImage exampleSynthEnv exampleBuilder [Line ''FROM golang''] examplePaths
     [pipInstall, goGenerate] \<lparr>Argv = []\<rparr> =
     Inl ''DeprecatedFastBuildImage: No inputs for run: pip install''"
  by (simp add: conditionalRun_def Triggers_Empty_def resolvesTo_def exampleSynthEnv_def
      examplePaths_def pipInstall_def goGenerate_def DeprecatedFastBuildImage_def
      addConditionalRuns_def Wrap_def Cmd_Empty_def)

section \<open>Properties of the progress throttle\<close>

lemma wrap64_double: "- (2 ^ 62) \<le> w \<Longrightarrow> w < 2 ^ 62 \<Longrightarrow> wrap64 (2 * w) = 2 * w"
  by (simp add: wrap64_def)

lemma progressBlock_log:
  assumes "ID m = ident" and "ident \<noteq> []" and "Progress m = Some p"
  shows "logged (progressBlock now st m) = logged st @
     (if \<not> (Current p = 0 \<and> (Status m = ''Waiting'' \<or> Status m = ''Preparing'')) \<and>
         (case progressLastPrinted st ident of
            None \<Rightarrow> True
          | Some t \<Rightarrow> Current p = Total p \<or>
              Since now t > (case progressPrintWait st ident of None \<Rightarrow> 0 | Some w \<Rightarrow> w))
      then [LogProgress ident (Status m) p] else [])"
  using assms
  by (simp add: progressBlock_def shouldPrint_def shouldSkip_def Let_def)

lemma progressBlock_printed:
  assumes "ID m = ident" and "ident \<noteq> []" and "Progress m = Some p"
    and "logged (progressBlock now st m) \<noteq> logged st"
  shows "progressLastPrinted (progressBlock now st m) ident = Some now \<and>
     progressPrintWait (progressBlock now st m) ident =
       Some (case progressPrintWait st ident of
               None \<Rightarrow> 5 * Second
             | Some w \<Rightarrow> if w = 0 then 5 * Second else wrap64 (2 * w))"
  using assms
  by (auto simp: progressBlock_def Let_def split: if_splits option.splits)

lemma progressBlock_silent:
  "logged (progressBlock now st m) = logged st \<Longrightarrow> progressBlock now st m = st"
  by (auto simp: progressBlock_def Let_def split: if_splits option.splits)

lemma throttleInv_progressBlock:
  assumes "throttleInv st"
  shows "throttleInv (progressBlock now st m)"
proof (cases "logged (progressBlock now st m) = logged st")
  case True
  then show ?thesis using assms by (simp add: progressBlock_silent)
next
  case False
  then obtain p where st': "progressBlock now st m =
      st\<lparr>logged := logged st @ [LogProgress (ID m) (Status m) p],
         progressLastPrinted := (progressLastPrinted st)(ID m \<mapsto> now),
         progressPrintWait := (progressPrintWait st)(ID m \<mapsto>
           (if (case progressPrintWait st (ID m) of None \<Rightarrow> 0 | Some w \<Rightarrow> w) = 0
            then 5 * Second
            else wrap64 (2 * (case progressPrintWait st (ID m) of None \<Rightarrow> 0 | Some w \<Rightarrow> w))))\<rparr>"
    by (auto simp: progressBlock_def Let_def split: if_splits option.splits)
  show ?thesis
    unfolding st' using assms by (auto simp: throttleInv_def)
qed

lemma throttleInv_streamBlock: "throttleInv st \<Longrightarrow> throttleInv (streamBlock st m)"
  by (auto simp: throttleInv_def streamBlock_def Let_def)

lemma throttleInv_auxBlock: "throttleInv st \<Longrightarrow> throttleInv (auxBlock st m)"
  by (auto simp: throttleInv_def auxBlock_def)

lemma throttleInv_bkPrinter: "throttleInv st \<Longrightarrow> throttleInv (st\<lparr>bkPrinter := bp\<rparr>)"
  by (auto simp: throttleInv_def)

lemma throttleInv_initial:
  "throttleInv \<lparr>result = dockerOutput_zero, progressLastPrinted = Map.empty,
     progressPrintWait = Map.empty, bkPrinter = bp, logged = []\<rparr>"
  by (simp add: throttleInv_def)

lemma readLoop_progress_step:
  "ident \<noteq> ''moby.buildkit.trace'' \<Longrightarrow>
   readLoop env st ((now, Decoded (progressMessage ident s c n)) # rest) =
   readLoop env (progressBlock now st (progressMessage ident s c n)) rest"
  by (simp add: progressMessage_def JSONMessage_zero_def streamBlock_def auxBlock_def
      messageIsFromBuildkit_def Let_def)

lemma progressBlock_first:
  assumes "ident \<noteq> []" and "\<not> suppressed s c"
    and "progressLastPrinted st ident = None" and "progressPrintWait st ident = None"
  shows "progressBlock now st (progressMessage ident s c n) =
     st\<lparr>logged := logged st @ [LogProgress ident s \<lparr>Current = c, Total = n\<rparr>],
        progressLastPrinted := (progressLastPrinted st)(ident \<mapsto> now),
        progressPrintWait := (progressPrintWait st)(ident \<mapsto> 5 * Second)\<rparr>"
  using assms
  by (simp add: progressBlock_def shouldPrint_def shouldSkip_def suppressed_def
      progressMessage_def JSONMessage_zero_def Let_def)

lemma progressBlock_next:
  assumes "ident \<noteq> []" and "\<not> suppressed s c"
    and "progressLastPrinted st ident = Some t" and "progressPrintWait st ident = Some w"
    and "w \<noteq> 0"
  shows "progressBlock now st (progressMessage ident s c n) =
     (if c = n \<or> w < Since now t
      then st\<lparr>logged := logged st @ [LogProgress ident s \<lparr>Current = c, Total = n\<rparr>],
              progressLastPrinted := (progressLastPrinted st)(ident \<mapsto> now),
              progressPrintWait := (progressPrintWait st)(ident \<mapsto> wrap64 (2 * w))\<rparr>
      else st)"
  using assms
  by (simp add: progressBlock_def shouldPrint_def shouldSkip_def suppressed_def
      progressMessage_def JSONMessage_zero_def Let_def)

lemma three_records:
  assumes ident: "ident \<noteq> []" "ident \<noteq> ''moby.buildkit.trace''"
    and ctx: "ctxErr env = None"
    and times: "t0 < t1" "t1 < t2" "t1 - t0 < 5 * Second" "5 * Second < t2 - t0"
    and shown: "\<not> suppressed s0 c0" "\<not> suppressed s1 c1" "\<not> suppressed s2 c2"
  shows "readDockerOutput env
      [(t0, Decoded (progressMessage ident s0 c0 n0)),
       (t1, Decoded (progressMessage ident s1 c1 n1)),
       (t2, Decoded (progressMessage ident s2 c2 n2))] =
    Returns (dockerOutput_zero, None,
      [LogProgress ident s0 \<lparr>Current = c0, Total = n0\<rparr>] @
      (if c1 = n1 then [LogProgress ident s1 \<lparr>Current = c1, Total = n1\<rparr>] else []) @
      (if c1 \<noteq> n1 \<or> c2 = n2 \<or> 10 * Second < t2 - t1
       then [LogProgress ident s2 \<lparr>Current = c2, Total = n2\<rparr>] else []))"
proof -
  let ?st0 = "\<lparr>result = dockerOutput_zero, progressLastPrinted = Map.empty,
     progressPrintWait = Map.empty, bkPrinter = newBuildkitPrinter env, logged = []\<rparr>"
  let ?L0 = "LogProgress ident s0 \<lparr>Current = c0, Total = n0\<rparr>"
  let ?L1 = "LogProgress ident s1 \<lparr>Current = c1, Total = n1\<rparr>"
  let ?L2 = "LogProgress ident s2 \<lparr>Current = c2, Total = n2\<rparr>"
  let ?st1 = "\<lparr>result = dockerOutput_zero, progressLastPrinted = [ident \<mapsto> t0],
     progressPrintWait = [ident \<mapsto> 5 * Second], bkPrinter = newBuildkitPrinter env,
     logged = [?L0]\<rparr>"
  let ?st2 = "\<lparr>result = dockerOutput_zero, progressLastPrinted = [ident \<mapsto> t1],
     progressPrintWait = [ident \<mapsto> 10 * Second], bkPrinter = newBuildkitPrinter env,
     logged = [?L0, ?L1]\<rparr>"
  have w10: "wrap64 (2 * (5 * Second)) = 10 * Second"
    by (simp add: wrap64_def Second_def)
  have s1: "progressBlock t0 ?st0 (progressMessage ident s0 c0 n0) = ?st1"
    using progressBlock_first [OF ident(1) shown(1), of ?st0 t0 n0] by simp
  have since1: "\<not> 5 * Second < Since t1 t0"
    using times by (simp add: Since_def)
  have s2: "progressBlock t1 ?st1 (progressMessage ident s1 c1 n1) =
      (if c1 = n1 then ?st2 else ?st1)"
    using progressBlock_next [OF ident(1) shown(2), of ?st1 t0 "5 * Second" t1 n1] since1 w10
    by (simp add: Second_def)
  have since2: "5 * Second < Since t2 t0"
    using times by (simp add: Since_def Second_def)
  have since3: "(10 * Second < Since t2 t1) = (10 * Second < t2 - t1)"
    using times by (simp add: Since_def Second_def)
  have s3a: "logged (progressBlock t2 ?st1 (progressMessage ident s2 c2 n2)) = [?L0, ?L2]"
    using progressBlock_next [OF ident(1) shown(3), of ?st1 t0 "5 * Second" t2 n2] since2
    by (simp add: Second_def)
  have s3b: "logged (progressBlock t2 ?st2 (progressMessage ident s2 c2 n2)) =
      [?L0, ?L1] @ (if c2 = n2 \<or> 10 * Second < t2 - t1 then [?L2] else [])"
    using progressBlock_next [OF ident(1) shown(3), of ?st2 t1 "10 * Second" t2 n2] since3
    by (simp add: Second_def)
  have r3a: "result (progressBlock t2 ?st1 (progressMessage ident s2 c2 n2)) = dockerOutput_zero"
    using progressBlock_next [OF ident(1) shown(3), of ?st1 t0 "5 * Second" t2 n2]
    by (simp add: Second_def)
  have r3b: "result (progressBlock t2 ?st2 (progressMessage ident s2 c2 n2)) = dockerOutput_zero"
    using progressBlock_next [OF ident(1) shown(3), of ?st2 t1 "10 * Second" t2 n2]
    by (simp add: Second_def)
  let ?m1 = "(t1, Decoded (progressMessage ident s1 c1 n1))"
  let ?m2 = "(t2, Decoded (progressMessage ident s2 c2 n2))"
  have start: "readDockerOutput env [(t0, Decoded (progressMessage ident s0 c0 n0)), ?m1, ?m2] =
      readLoop env ?st1 [?m1, ?m2]"
    unfolding readDockerOutput_def by (simp only: readLoop_progress_step [OF ident(2)] s1)
  have finish: "readLoop env st [] = Returns (result st, None, logged st)" for st
    using ctx by simp
  show ?thesis
  proof (cases "c1 = n1")
    case True
    with s2 have "progressBlock t1 ?st1 (progressMessage ident s1 c1 n1) = ?st2"
      by simp
    then have "readLoop env ?st1 [?m1, ?m2] =
        readLoop env (progressBlock t2 ?st2 (progressMessage ident s2 c2 n2)) []"
      by (simp only: readLoop_progress_step [OF ident(2)])
    also have "\<dots> = Returns (dockerOutput_zero, None,
        [?L0, ?L1] @ (if c2 = n2 \<or> 10 * Second < t2 - t1 then [?L2] else []))"
      by (simp only: finish s3b r3b)
    finally show ?thesis using True start by simp
  next
    case False
    with s2 have "progressBlock t1 ?st1 (progressMessage ident s1 c1 n1) = ?st1"
      by simp
    then have "readLoop env ?st1 [?m1, ?m2] =
        readLoop env (progressBlock t2 ?st1 (progressMessage ident s2 c2 n2)) []"
      by (simp only: readLoop_progress_step [OF ident(2)])
    also have "\<dots> = Returns (dockerOutput_zero, None, [?L0, ?L2])"
      by (simp only: finish s3a r3a)
    finally show ?thesis using False start by simp
  qed
qed

text \<open>
  C6, as the code has it. A progress record with a non-empty identifier is logged if and
  only if it is not suppressed (current 0 with status Waiting or Preparing) and the
  identifier has no time of last print, or current equals total, or the time since the
  last print exceeds the wait window. A record that is logged sets the time of last
  print and the window: 5 seconds when there was none, else twice the window in 64-bit
  arithmetic, which is the exact double below \<open>2 ^ 62\<close> nanoseconds; a record that is not
  logged leaves the state as it is. An identifier has a time of last print exactly when
  one of its records was logged since the maps were created, empty, at the start of
  \<^verbatim>\<open>readDockerOutput\<close>. For the first three records of an identifier, none suppressed,
  at times \<open>t0 < t1 < t2\<close> with \<open>t1 - t0\<close> below and \<open>t2 - t0\<close> above 5 seconds: the first
  is logged; the second is logged exactly when its current equals its total; the third
  is logged when the second was not, and otherwise exactly when its current equals its
  total or \<open>t2 - t1\<close> exceeds 10 seconds.
\<close>

theorem progress_throttle:
  "(ID m = ident \<and> ident \<noteq> [] \<and> Progress m = Some p \<longrightarrow>
      logged (progressBlock now st m) = logged st @
        (if \<not> suppressed (Status m) (Current p) \<and>
            (case progressLastPrinted st ident of
               None \<Rightarrow> True
             | Some t \<Rightarrow> Current p = Total p \<or>
                 (case progressPrintWait st ident of None \<Rightarrow> 0 | Some w \<Rightarrow> w) < Since now t)
         then [LogProgress ident (Status m) p] else [])) \<and>
   (ID m = ident \<and> ident \<noteq> [] \<and> Progress m = Some p \<and>
    logged (progressBlock now st m) \<noteq> logged st \<longrightarrow>
      progressLastPrinted (progressBlock now st m) ident = Some now \<and>
      progressPrintWait (progressBlock now st m) ident =
        Some (case progressPrintWait st ident of
                None \<Rightarrow> 5 * Second
              | Some w \<Rightarrow> if w = 0 then 5 * Second else wrap64 (2 * w))) \<and>
   (logged (progressBlock now st m) = logged st \<longrightarrow> progressBlock now st m = st) \<and>
   (- (2 ^ 62) \<le> w \<and> w < 2 ^ 62 \<longrightarrow> wrap64 (2 * w) = 2 * w) \<and>
   throttleInv \<lparr>result = dockerOutput_zero, progressLastPrinted = Map.empty,
     progressPrintWait = Map.empty, bkPrinter = newBuildkitPrinter env, logged = []\<rparr> \<and>
   (throttleInv st \<longrightarrow>
      throttleInv (streamBlock st m) \<and> throttleInv (progressBlock now st m) \<and>
      throttleInv (auxBlock st m) \<and> throttleInv (st\<lparr>bkPrinter := bp\<rparr>)) \<and>
   (ident \<noteq> [] \<and> ident \<noteq> ''moby.buildkit.trace'' \<and> ctxErr env = None \<and>
    t0 < t1 \<and> t1 < t2 \<and> t1 - t0 < 5 * Second \<and> 5 * Second < t2 - t0 \<and>
    \<not> suppressed s0 c0 \<and> \<not> suppressed s1 c1 \<and> \<not> suppressed s2 c2 \<longrightarrow>
      readDockerOutput env
        [(t0, Decoded (progressMessage ident s0 c0 n0)),
         (t1, Decoded (progressMessage ident s1 c1 n1)),
         (t2, Decoded (progressMessage ident s2 c2 n2))] =
      Returns (dockerOutput_zero, None,
        [LogProgress ident s0 \<lparr>Current = c0, Total = n0\<rparr>] @
        (if c1 = n1 then [LogProgress ident s1 \<lparr>Current = c1, Total = n1\<rparr>] else []) @
        (if c1 \<noteq> n1 \<or> c2 = n2 \<or> 10 * Second < t2 - t1
         then [LogProgress ident s2 \<lparr>Current = c2, Total = n2\<rparr>] else [])))"
proof (intro conjI impI)
  assume "ID m = ident \<and> ident \<noteq> [] \<and> Progress m = Some p"
  then show "logged (progressBlock now st m) = logged st @
        (if \<not> suppressed (Status m) (Current p) \<and>
            (case progressLastPrinted st ident of
               None \<Rightarrow> True
             | Some t \<Rightarrow> Current p = Total p \<or>
                 (case progressPrintWait st ident of None \<Rightarrow> 0 | Some w \<Rightarrow> w) < Since now t)
         then [LogProgress ident (Status m) p] else [])"
    unfolding suppressed_def by (intro progressBlock_log) blast+
next
  assume a: "ID m = ident \<and> ident \<noteq> [] \<and> Progress m = Some p \<and>
    logged (progressBlock now st m) \<noteq> logged st"
  then have both: "progressLastPrinted (progressBlock now st m) ident = Some now \<and>
     progressPrintWait (progressBlock now st m) ident =
       Some (case progressPrintWait st ident of
               None \<Rightarrow> 5 * Second
             | Some w \<Rightarrow> if w = 0 then 5 * Second else wrap64 (2 * w))"
    by (intro progressBlock_printed) blast+
  from both show "progressLastPrinted (progressBlock now st m) ident = Some now" by blast
  from both show "progressPrintWait (progressBlock now st m) ident =
        Some (case progressPrintWait st ident of
                None \<Rightarrow> 5 * Second
              | Some w \<Rightarrow> if w = 0 then 5 * Second else wrap64 (2 * w))" by blast
next
  assume "logged (progressBlock now st m) = logged st"
  then show "progressBlock now st m = st" by (rule progressBlock_silent)
next
  assume "- (2 ^ 62) \<le> w \<and> w < 2 ^ 62"
  then show "wrap64 (2 * w) = 2 * w" by (simp add: wrap64_double)
next
  show "throttleInv \<lparr>result = dockerOutput_zero, progressLastPrinted = Map.empty,
     progressPrintWait = Map.empty, bkPrinter = newBuildkitPrinter env, logged = []\<rparr>"
    by (rule throttleInv_initial)
next
  assume inv: "throttleInv st"
  show "throttleInv (streamBlock st m)" using inv by (rule throttleInv_streamBlock)
  show "throttleInv (progressBlock now st m)" using inv by (rule throttleInv_progressBlock)
  show "throttleInv (auxBlock st m)" using inv by (rule throttleInv_auxBlock)
  show "throttleInv (st\<lparr>bkPrinter := bp\<rparr>)" using inv by (rule throttleInv_bkPrinter)
next
  assume "ident \<noteq> [] \<and> ident \<noteq> ''moby.buildkit.trace'' \<and> ctxErr env = None \<and>
    t0 < t1 \<and> t1 < t2 \<and> t1 - t0 < 5 * Second \<and> 5 * Second < t2 - t0 \<and>
    \<not> suppressed s0 c0 \<and> \<not> suppressed s1 c1 \<and> \<not> suppressed s2 c2"
  then show "readDockerOutput env
        [(t0, Decoded (progressMessage ident s0 c0 n0)),
         (t1, Decoded (progressMessage ident s1 c1 n1)),
         (t2, Decoded (progressMessage ident s2 c2 n2))] =
      Returns (dockerOutput_zero, None,
        [LogProgress ident s0 \<lparr>Current = c0, Total = n0\<rparr>] @
        (if c1 = n1 then [LogProgress ident s1 \<lparr>Current = c1, Total = n1\<rparr>] else []) @
        (if c1 \<noteq> n1 \<or> c2 = n2 \<or> 10 * Second < t2 - t1
         then [LogProgress ident s2 \<lparr>Current = c2, Total = n2\<rparr>] else []))"
    by (intro three_records) blast+
qed

theorem progress_throttle_witness:
  "readDockerOutput exampleEnv
     [(0, Decoded (progressMessage ''layer1'' ''Downloading'' 1 10)),
      (4 * Second, Decoded (progressMessage ''layer1'' ''Downloading'' 5 10)),
      (6 * Second, Decoded (progressMessage ''layer1'' ''Extracting'' 7 10))] =
     Returns (dockerOutput_zero, None,
       [LogProgress ''layer1'' ''Downloading'' \<lparr>Current = 1, Total = 10\<rparr>,
        LogProgress ''layer1'' ''Extracting'' \<lparr>Current = 7, Total = 10\<rparr>]) \<and>
   logged (progressBlock 0
     \<lparr>result = dockerOutput_zero, progressLastPrinted = Map.empty,
      progressPrintWait = Map.empty, bkPrinter = (), logged = []\<rparr>
     (progressMessage ''layer1'' ''Downloading'' 1 10)) =
     [LogProgress ''layer1'' ''Downloading'' \<lparr>Current = 1, Total = 10\<rparr>] \<and>
   progressPrintWait (progressBlock 0
     \<lparr>result = dockerOutput_zero, progressLastPrinted = Map.empty,
      progressPrintWait = Map.empty, bkPrinter = (), logged = []\<rparr>
     (progressMessage ''layer1'' ''Downloading'' 1 10)) ''layer1'' = Some (5 * Second) \<and>
   wrap64 (2 * (5 * Second)) = 2 * (5 * Second) \<and>
   throttleInv (progressBlock 0
     \<lparr>result = dockerOutput_zero, progressLastPrinted = Map.empty,
      progressPrintWait = Map.empty, bkPrinter = (), logged = []\<rparr>
     (progressMessage ''layer1'' ''Downloading'' 1 10))"
proof -
  let ?st = "\<lparr>result = dockerOutput_zero, progressLastPrinted = Map.empty,
      progressPrintWait = Map.empty, bkPrinter = newBuildkitPrinter exampleEnv, logged = []\<rparr>"
  let ?m = "progressMessage ''layer1'' ''Downloading'' 1 10"
  let ?p = "\<lparr>Current = 1, Total = 10\<rparr>"
  note t = progress_throttle [where m = ?m and ident = "''layer1''" and p = ?p and now = 0
      and st = ?st and w = "5 * Second" and env = exampleEnv and bp = "()"
      and ?t0.0 = 0 and ?t1.0 = "4 * Second" and ?t2.0 = "6 * Second"
      and ?s0.0 = "''Downloading''" and ?c0.0 = 1 and ?n0.0 = 10
      and ?s1.0 = "''Downloading''" and ?c1.0 = 5 and ?n1.0 = 10
      and ?s2.0 = "''Extracting''" and ?c2.0 = 7 and ?n2.0 = 10]
  have printer: "newBuildkitPrinter exampleEnv = ()" by simp
  have rec: "ID ?m = ''layer1'' \<and> ''layer1'' \<noteq> [] \<and> Progress ?m = Some ?p"
    by (simp add: progressMessage_def JSONMessage_zero_def)
  have shown: "\<not> suppressed (Status ?m) (Current ?p)"
    by (simp add: suppressed_def)
  from t rec have "logged (progressBlock 0 ?st ?m) = logged ?st @
        (if \<not> suppressed (Status ?m) (Current ?p) \<and>
            (case progressLastPrinted ?st ''layer1'' of
               None \<Rightarrow> True
             | Some t \<Rightarrow> Current ?p = Total ?p \<or>
                 (case progressPrintWait ?st ''layer1'' of None \<Rightarrow> 0 | Some w \<Rightarrow> w) < Since 0 t)
         then [LogProgress ''layer1'' (Status ?m) ?p] else [])"
    by blast
  with shown have lg: "logged (progressBlock 0 ?st ?m) =
      [LogProgress ''layer1'' ''Downloading'' ?p]"
    by (simp add: progressMessage_def JSONMessage_zero_def)
  then have "logged (progressBlock 0 ?st ?m) \<noteq> logged ?st" by simp
  with t rec have "progressPrintWait (progressBlock 0 ?st ?m) ''layer1'' =
        Some (case progressPrintWait ?st ''layer1'' of
                None \<Rightarrow> 5 * Second
              | Some w \<Rightarrow> if w = 0 then 5 * Second else wrap64 (2 * w))"
    by blast
  then have wt: "progressPrintWait (progressBlock 0 ?st ?m) ''layer1'' = Some (5 * Second)"
    by simp
  have "- (2 ^ 62) \<le> 5 * Second \<and> 5 * Second < 2 ^ 62" by (simp add: Second_def)
  with t have dbl: "wrap64 (2 * (5 * Second)) = 2 * (5 * Second)" by blast
  from t have "throttleInv ?st" by blast
  with t have inv: "throttleInv (progressBlock 0 ?st ?m)" by blast
  have "''layer1'' \<noteq> [] \<and> ''layer1'' \<noteq> ''moby.buildkit.trace'' \<and> ctxErr exampleEnv = None \<and>
    (0::int) < 4 * Second \<and> 4 * Second < 6 * Second \<and> 4 * Second - 0 < 5 * Second \<and>
    5 * Second < 6 * Second - 0 \<and>
    \<not> suppressed ''Downloading'' 1 \<and> \<not> suppressed ''Downloading'' 5 \<and>
    \<not> suppressed ''Extracting'' 7"
    by (simp add: exampleEnv_def Second_def suppressed_def)
  with t have "readDockerOutput exampleEnv
        [(0, Decoded (progressMessage ''layer1'' ''Downloading'' 1 10)),
         (4 * Second, Decoded (progressMessage ''layer1'' ''Downloading'' 5 10)),
         (6 * Second, Decoded (progressMessage ''layer1'' ''Extracting'' 7 10))] =
      Returns (dockerOutput_zero, None,
        [LogProgress ''layer1'' ''Downloading'' \<lparr>Current = 1, Total = 10\<rparr>] @
        (if (5::int) = 10 then [LogProgress ''layer1'' ''Downloading'' \<lparr>Current = 5, Total = 10\<rparr>]
         else []) @
        (if (5::int) \<noteq> 10 \<or> (7::int) = 10 \<or> 10 * Second < 6 * Second - 4 * Second
         then [LogProgress ''layer1'' ''Extracting'' \<lparr>Current = 7, Total = 10\<rparr>] else []))"
    by blast
  then have run: "readDockerOutput exampleEnv
        [(0, Decoded (progressMessage ''layer1'' ''Downloading'' 1 10)),
         (4 * Second, Decoded (progressMessage ''layer1'' ''Downloading'' 5 10)),
         (6 * Second, Decoded (progressMessage ''layer1'' ''Extracting'' 7 10))] =
      Returns (dockerOutput_zero, None,
        [LogProgress ''layer1'' ''Downloading'' \<lparr>Current = 1, Total = 10\<rparr>,
         LogProgress ''layer1'' ''Extracting'' \<lparr>Current = 7, Total = 10\<rparr>])"
    by simp
  from run lg wt dbl inv show ?thesis
    unfolding printer by blast
qed

text \<open>
  The claim C6 as stated fails when the record at \<open>t1\<close> is a completion: it is logged, the
  window becomes 10 seconds from \<open>t1\<close>, and the record at \<open>t2\<close>, 6 seconds after \<open>t0\<close>, is
  not logged.
\<close>

theorem progress_throttle_completion_delays_next:
  "(0::int) < 4 * Second \<and> 4 * Second < 6 * Second \<and> 4 * Second - 0 < 5 * Second \<and>
   5 * Second < 6 * Second - 0 \<and>
   readDockerOutput exampleEnv
     [(0, Decoded (progressMessage ''layer1'' ''Downloading'' 1 10)),
      (4 * Second, Decoded (progressMessage ''layer1'' ''Downloading'' 10 10)),
      (6 * Second, Decoded (progressMessage ''layer1'' ''Extracting'' 1 10))] =
     Returns (dockerOutput_zero, None,
       [LogProgress ''layer1'' ''Downloading'' \<lparr>Current = 1, Total = 10\<rparr>,
        LogProgress ''layer1'' ''Downloading'' \<lparr>Current = 10, Total = 10\<rparr>])"
proof -
  have "readDockerOutput exampleEnv
     [(0, Decoded (progressMessage ''layer1'' ''Downloading'' 1 10)),
      (4 * Second, Decoded (progressMessage ''layer1'' ''Downloading'' 10 10)),
      (6 * Second, Decoded (progressMessage ''layer1'' ''Extracting'' 1 10))] =
     Returns (dockerOutput_zero, None,
       [LogProgress ''layer1'' ''Downloading'' \<lparr>Current = 1, Total = 10\<rparr>,
        LogProgress ''layer1'' ''Downloading'' \<lparr>Current = 10, Total = 10\<rparr>])"
    by code_simp
  then show ?thesis by (simp add: Second_def)
qed

section \<open>Further properties of the matcher\<close>

text \<open>
  A match lies within the text, so the two last tests of the guard of \<open>replaceAll\<close>
  never hold; and the legacy digest pattern matches no other line than the ones of C8.
\<close>

lemma tryLongest_SomeD:
  "tryLongest f lo n = Some r \<Longrightarrow> \<exists>k. lo \<le> k \<and> k \<le> n \<and> f k = Some r"
proof (induction n)
  case 0
  then show ?case by (auto split: if_splits)
next
  case (Suc n)
  show ?case
  proof (cases "f (Suc n)")
    case None
    with Suc.prems have "tryLongest f lo n = Some r" by (simp split: if_splits)
    from Suc.IH [OF this] show ?thesis by (meson le_SucI)
  next
    case (Some r')
    with Suc.prems have "lo \<le> Suc n" "r' = r" by (auto split: if_splits)
    with Some show ?thesis by blast
  qed
qed

lemma matchNodes_bounds:
  "matchNodes re pos s cap = Some (e, c) \<Longrightarrow> pos \<le> e \<and> e \<le> pos + length s"
proof (induction re pos s cap rule: matchNodes.induct)
  case (1 pos s cap)
  then show ?case by simp
next
  case (2 l re pos s cap)
  then show ?case by (auto simp: HasPrefix_def split: if_splits)
next
  case (3 cl re pos s cap)
  from "3.prems" obtain k where k: "k \<le> length (takeWhile (inClass cl) s)"
    and m: "matchNodes re (pos + k) (drop k s) cap = Some (e, c)"
    by (auto dest: tryLongest_SomeD)
  have "k \<le> length s" using k length_takeWhile_le [of "inClass cl" s] by linarith
  with "3.IH" [OF m] show ?case by simp
next
  case (4 cl re pos s cap)
  from "4.prems" obtain k where k: "k \<le> length (takeWhile (inClass cl) s)"
    and m: "matchNodes re (pos + k) (drop k s) cap = Some (e, c)"
    by (auto dest: tryLongest_SomeD)
  have "k \<le> length s" using k length_takeWhile_le [of "inClass cl" s] by linarith
  with "4.IH" [OF m] show ?case by simp
next
  case (5 re pos s cap)
  then show ?case by simp
next
  case (6 re pos s cap)
  then show ?case by simp
next
  case (7 re pos s cap)
  then show ?case by (simp split: if_splits)
next
  case (8 re pos s cap)
  then show ?case by (simp split: if_splits)
qed

lemma search_bounds:
  "search re pos s = Some (b, e, c) \<Longrightarrow> pos \<le> b \<and> b \<le> e \<and> e \<le> pos + length s"
proof (induction s arbitrary: pos)
  case Nil
  then show ?case by (auto split: option.splits dest: matchNodes_bounds)
next
  case (Cons x xs)
  show ?case
  proof (cases "matchNodes re pos (x # xs) (0, 0)")
    case None
    with Cons.prems have "search re (Suc pos) xs = Some (b, e, c)" by simp
    from Cons.IH [OF this] show ?thesis by simp
  next
    case (Some r)
    obtain e' c' where r: "r = (e', c')" by (cases r)
    with Some Cons.prems have "b = pos" "e = e'" by auto
    with Some r matchNodes_bounds [of re pos "x # xs" "(0, 0)" e' c'] show ?thesis by simp
  qed
qed

lemma search_BeginText:
  "0 < pos \<Longrightarrow> search (BeginText # re) pos s = None"
  by (induction s arbitrary: pos) auto

lemma search_BeginText_at_0:
  assumes "search (BeginText # re) 0 s = Some r"
  shows "\<exists>e c. matchNodes re 0 s (0, 0) = Some (e, c)"
proof (cases s)
  case Nil
  with assms show ?thesis by (auto split: option.splits)
next
  case (Cons x xs)
  show ?thesis
  proof (cases "matchNodes (BeginText # re) 0 (x # xs) (0, 0)")
    case None
    with assms Cons have "search (BeginText # re) (Suc 0) xs = Some r" by simp
    then show ?thesis by (simp add: search_BeginText)
  next
    case (Some r')
    with Cons show ?thesis by (cases r') simp
  qed
qed

lemma take_takeWhile_all:
  "k \<le> length (takeWhile P xs) \<Longrightarrow> \<forall>c\<in>set (take k xs). P c"
proof (induction xs arbitrary: k)
  case Nil
  then show ?case by simp
next
  case (Cons x xs)
  show ?case
  proof (cases k)
    case 0
    then show ?thesis by simp
  next
    case (Suc k')
    with Cons.prems have "P x" and "k' \<le> length (takeWhile P xs)"
      by (auto split: if_splits)
    with Cons.IH [of k'] Suc show ?thesis by simp
  qed
qed

lemma oldDigestRegexp_only:
  assumes "FindStringSubmatch oldDigestRegexp s \<noteq> []"
  shows "\<exists>h w. s = ''Successfully built '' @ h @ w \<and> h \<noteq> [] \<and>
           (\<forall>c\<in>set h. inClass LowerHex c) \<and> (\<forall>c\<in>set w. inClass WhiteSpace c)"
proof -
  let ?P = "''Successfully built ''"
  from assms obtain r where "search oldDigestRegexp 0 s = Some r"
    by (auto simp: FindStringSubmatch_def split: option.splits)
  then obtain e c where m: "matchNodes
      [Literal ?P, CapOpen, Plus LowerHex, CapClose, Star WhiteSpace, EndText] 0 s (0, 0) =
      Some (e, c)"
    unfolding oldDigestRegexp_def by (blast dest: search_BeginText_at_0)
  have pre: "HasPrefix s ?P"
  proof (rule ccontr)
    assume "\<not> HasPrefix s ?P"
    then have "matchNodes
        [Literal ?P, CapOpen, Plus LowerHex, CapClose, Star WhiteSpace, EndText] 0 s (0, 0) =
        None"
      by (simp only: matchNodes.simps if_False)
    with m show False by simp
  qed
  define s' where "s' = drop (length ?P) s"
  from pre have s: "s = ?P @ s'"
    unfolding s'_def HasPrefix_def by (metis append_take_drop_id)
  have "matchNodes
      [Literal ?P, CapOpen, Plus LowerHex, CapClose, Star WhiteSpace, EndText] 0 s (0, 0) =
      tryLongest
        (\<lambda>n. matchNodes [CapClose, Star WhiteSpace, EndText] (0 + length ?P + n) (drop n s')
               (0 + length ?P, 0))
        1 (length (takeWhile (inClass LowerHex) s'))"
    using pre unfolding s'_def by (simp only: matchNodes.simps(2,4,5) if_True snd_conv simp_thms)
  with m have "tryLongest
        (\<lambda>n. matchNodes [CapClose, Star WhiteSpace, EndText] (0 + length ?P + n) (drop n s')
               (0 + length ?P, 0))
        1 (length (takeWhile (inClass LowerHex) s')) = Some (e, c)"
    by (simp only:)
  from tryLongest_SomeD [OF this]
  obtain k where k: "1 \<le> k" "k \<le> length (takeWhile (inClass LowerHex) s')"
    and m2: "matchNodes [CapClose, Star WhiteSpace, EndText] (0 + length ?P + k) (drop k s')
       (0 + length ?P, 0) = Some (e, c)"
    by blast
  define w where "w = drop k s'"
  have "matchNodes [CapClose, Star WhiteSpace, EndText] (0 + length ?P + k) w
       (0 + length ?P, 0) =
      tryLongest
        (\<lambda>n. matchNodes [EndText] (0 + length ?P + k + n) (drop n w)
               (0 + length ?P, 0 + length ?P + k))
        0 (length (takeWhile (inClass WhiteSpace) w))"
    by (simp only: matchNodes.simps(3,6) fst_conv simp_thms)
  with m2 have "tryLongest
        (\<lambda>n. matchNodes [EndText] (0 + length ?P + k + n) (drop n w)
               (0 + length ?P, 0 + length ?P + k))
        0 (length (takeWhile (inClass WhiteSpace) w)) = Some (e, c)"
    unfolding w_def by (simp only:)
  from tryLongest_SomeD [OF this]
  obtain j where j: "j \<le> length (takeWhile (inClass WhiteSpace) w)"
    and m3: "matchNodes [EndText] (0 + length ?P + k + j) (drop j w)
       (0 + length ?P, 0 + length ?P + k) = Some (e, c)"
    by blast
  have "drop j w = []"
  proof (rule ccontr)
    assume "drop j w \<noteq> []"
    then have "matchNodes [EndText] (0 + length ?P + k + j) (drop j w)
       (0 + length ?P, 0 + length ?P + k) = None"
      by (simp only: matchNodes.simps if_False)
    with m3 show False by simp
  qed
  then have "length w \<le> j" by simp
  with j have "length (takeWhile (inClass WhiteSpace) w) = length w"
    using length_takeWhile_le [of "inClass WhiteSpace" w] by linarith
  then have "length w \<le> length (takeWhile (inClass WhiteSpace) w)" by simp
  from take_takeWhile_all [OF this] have ws: "\<forall>c\<in>set w. inClass WhiteSpace c" by simp
  have hex: "\<forall>c\<in>set (take k s'). inClass LowerHex c"
    using k(2) by (rule take_takeWhile_all)
  have "k \<le> length s'"
    using k(2) length_takeWhile_le [of "inClass LowerHex" s'] by linarith
  with k(1) have ne: "take k s' \<noteq> []" by auto
  have "s = ?P @ take k s' @ w" using s by (simp add: w_def)
  with ne hex ws show ?thesis by blast
qed

lemma streamBlock_other_line:
  assumes "\<not> (\<exists>h w. Stream m = ''Successfully built '' @ h @ w \<and> h \<noteq> [] \<and>
           (\<forall>c\<in>set h. inClass LowerHex c) \<and> (\<forall>c\<in>set w. inClass WhiteSpace c))"
  shows "result (streamBlock st m) = result st"
proof -
  from assms oldDigestRegexp_only [of "Stream m"]
  have "FindStringSubmatch oldDigestRegexp (Stream m) = []" by blast
  then show ?thesis by (simp add: streamBlock_def Let_def)
qed

lemma replaceAll_unfold:
  "replaceAll re pos s =
     (case search re pos s of
        None \<Rightarrow> s
      | Some (b, e, cs, ce) \<Rightarrow>
          if e = b then s
          else take (b - pos) s @ take (ce - cs) (drop (cs - pos) s) @
               replaceAll re e (drop (e - pos) s))"
proof (cases "search re pos s")
  case None
  then show ?thesis by (subst replaceAll.simps) simp
next
  case (Some r)
  obtain b e cs ce where r: "r = (b, e, cs, ce)" by (cases r)
  from Some r search_bounds [of re pos s b e "(cs, ce)"]
  have "pos \<le> b" "b \<le> e" "e \<le> pos + length s" by auto
  then have "(e \<le> b \<or> b < pos \<or> length s < e - pos) = (e = b)" by auto
  with Some r show ?thesis by (subst replaceAll.simps) simp
qed

end
